theory Spec2Isabelle
  imports Complex_Main "HOL-Library.AList" "HOL-Library.Multiset"
begin

section \<open>Enumerations of \<^verbatim>\<open>Driver_USB.py\<close>\<close>

datatype DeviceType = BLOQUE | CARACTER

datatype OperationType = LECTURA | ESCRITURA | CONTROL | BUSQUEDA

datatype DeviceStatus = DESCONECTADO | CONECTADO | OCUPADO | ERROR | EN_ESPERA

datatype SchedulingAlgorithm = FIFO | PRIORIDAD | TRABAJO_MAS_CORTO_PRIMERO | ROUND_ROBIN

section \<open>Numbers\<close>

text \<open>
  Python's unbounded \<^verbatim>\<open>int\<close> is \<^typ>\<open>int\<close>. Sizes, rates and time stamps are
  Python floats; they are modelled by exact rationals, so rounding, infinities and NaN
  are outside the model. \<^verbatim>\<open>int(x)\<close> on a float truncates towards zero.
\<close>

definition py_int :: "rat \<Rightarrow> int" where
  "py_int x = (if 0 \<le> x then \<lfloor>x\<rfloor> else \<lceil>x\<rceil>)"

section \<open>Buffers and the buffer manager\<close>

text \<open>
  A Python dictionary whose entries are summed or iterated is an association list with
  distinct keys: \<^const>\<open>AList.update\<close> is \<^verbatim>\<open>d[k] = v\<close> (an existing key keeps its
  place) and \<^const>\<open>AList.delete\<close> is \<^verbatim>\<open>del d[k]\<close>.

  Class \<^verbatim>\<open>Buffer\<close>: the entry stored under an operation id is its size; the
  descriptive text stored beside it is left out.
\<close>

record Buffer =
  size_kb :: int
  used_kb :: int
  data :: "(string \<times> int) list"

definition Buffer_init :: "int \<Rightarrow> Buffer" where
  "Buffer_init sz = \<lparr>size_kb = sz, used_kb = 0, data = []\<rparr>"

definition allocate :: "int \<Rightarrow> string \<Rightarrow> Buffer \<Rightarrow> bool \<times> Buffer" where
  "allocate sz operation_id b =
     (if used_kb b + sz \<le> size_kb b
      then (True, b\<lparr>used_kb := used_kb b + sz,
                     data := AList.update operation_id sz (data b)\<rparr>)
      else (False, b))"

record BufferManager =
  total_buffer_size_kb :: int
  buffers :: "(string \<times> Buffer) list"
  used_buffer_kb :: int

definition BufferManager_init :: "int \<Rightarrow> BufferManager" where
  "BufferManager_init total_kb = \<lparr>total_buffer_size_kb = total_kb, buffers = [], used_buffer_kb = 0\<rparr>"

definition allocate_buffer :: "rat \<Rightarrow> string \<Rightarrow> BufferManager \<Rightarrow> bool \<times> BufferManager" where
  "allocate_buffer size_mb operation_id bm =
     (let sz = py_int (size_mb * 1024) in
      if used_buffer_kb bm + sz > total_buffer_size_kb bm then (False, bm)
      else
        let buffer = snd (allocate sz operation_id (Buffer_init sz)) in
        (True, bm\<lparr>buffers := AList.update operation_id buffer (buffers bm),
                   used_buffer_kb := used_buffer_kb bm + sz\<rparr>))"

definition release_buffer :: "string \<Rightarrow> BufferManager \<Rightarrow> bool \<times> BufferManager" where
  "release_buffer operation_id bm =
     (case map_of (buffers bm) operation_id of
        Some buffer \<Rightarrow>
          (True, bm\<lparr>used_buffer_kb := used_buffer_kb bm - size_kb buffer,
                     buffers := AList.delete operation_id (buffers bm)\<rparr>)
      | None \<Rightarrow> (False, bm))"

definition get_buffer_usage :: "BufferManager \<Rightarrow> rat" where
  "get_buffer_usage bm =
     (if total_buffer_size_kb bm > 0
      then (of_int (used_buffer_kb bm) / of_int (total_buffer_size_kb bm)) * 100
      else 0)"

text \<open>A call on the pool, and the pool states after each call of a sequence.\<close>

datatype pool_call = Allocate rat string | Release string

fun pool_step :: "BufferManager \<Rightarrow> pool_call \<Rightarrow> BufferManager" where
  "pool_step bm (Allocate size_mb operation_id) = snd (allocate_buffer size_mb operation_id bm)"
| "pool_step bm (Release operation_id) = snd (release_buffer operation_id bm)"

fun pool_run :: "BufferManager \<Rightarrow> pool_call list \<Rightarrow> BufferManager" where
  "pool_run bm [] = bm"
| "pool_run bm (c # cs) = pool_run (pool_step bm c) cs"

fun call_size_kb :: "pool_call \<Rightarrow> int" where
  "call_size_kb (Allocate size_mb operation_id) = py_int (size_mb * 1024)"
| "call_size_kb (Release operation_id) = 0"

section \<open>Requests\<close>

text \<open>
  Class \<^verbatim>\<open>IOOperation\<close>. The status is one of the four strings the source assigns.
  Requests are mutable objects shared between the queues, the drivers and the interrupt
  history, so they live in a store and are passed around by reference; comparing two
  requests with \<^verbatim>\<open>!=\<close> compares the references, since the class defines no
  \<^verbatim>\<open>__eq__\<close>.
\<close>

record IOOperation =
  operation_id :: string
  operation_type :: OperationType
  data_size_mb :: rat
  process_name :: string
  priority :: int
  block_address :: "int option"
  creation_time :: rat
  start_time :: "rat option"
  completion_time :: "rat option"
  op_status :: string

type_synonym op_ref = nat

type_synonym op_store = "op_ref \<Rightarrow> IOOperation"

definition IOOperation_init ::
  "string \<Rightarrow> OperationType \<Rightarrow> rat \<Rightarrow> string \<Rightarrow> int \<Rightarrow> int option \<Rightarrow> rat \<Rightarrow> IOOperation" where
  "IOOperation_init uid ty size_mb process prio address now =
     \<lparr>operation_id = uid, operation_type = ty, data_size_mb = size_mb, process_name = process,
      priority = prio, block_address = address, creation_time = now, start_time = None,
      completion_time = None, op_status = ''PENDIENTE''\<rparr>"

text \<open>\<^verbatim>\<open>IOOperation.__lt__\<close>: a larger number is a higher priority.\<close>

definition IOOperation_lt :: "op_store \<Rightarrow> op_ref \<Rightarrow> op_ref \<Rightarrow> bool" where
  "IOOperation_lt ops a b = (priority (ops a) > priority (ops b))"

section \<open>Queues of the standard library\<close>

text \<open>
  \<^verbatim>\<open>queue.Queue\<close> and \<^verbatim>\<open>queue.PriorityQueue\<close> are library classes. A queue is the
  list of its entries in the order they were put. \<^verbatim>\<open>Queue.get\<close> takes the oldest entry;
  \<^verbatim>\<open>PriorityQueue.get\<close> takes the entry that \<^verbatim>\<open>min\<close> would return under the entries'
  \<^verbatim>\<open>__lt__\<close>. Which of several equally small entries the library's heap returns is not
  part of its contract; the model takes the oldest one, and nothing proved below depends
  on that choice. \<^verbatim>\<open>get\<close> on an empty queue blocks: it is \<^const>\<open>None\<close> here.
\<close>

datatype py_queue = Queue "op_ref list" | PriorityQueue "op_ref list"

fun entries :: "py_queue \<Rightarrow> op_ref list" where
  "entries (Queue xs) = xs"
| "entries (PriorityQueue xs) = xs"

definition empty_queue :: "py_queue \<Rightarrow> bool" where
  "empty_queue q = (entries q = [])"

fun put :: "op_ref \<Rightarrow> py_queue \<Rightarrow> py_queue" where
  "put r (Queue xs) = Queue (xs @ [r])"
| "put r (PriorityQueue xs) = PriorityQueue (xs @ [r])"

text \<open>
  Python's \<^verbatim>\<open>min\<close> over a non-empty sequence walks it from the left and replaces the
  candidate only by a strictly smaller item, so the first smallest item wins.
\<close>

fun py_min :: "('a \<Rightarrow> 'a \<Rightarrow> bool) \<Rightarrow> 'a \<Rightarrow> 'a list \<Rightarrow> 'a" where
  "py_min lt m [] = m"
| "py_min lt m (y # ys) = py_min lt (if lt y m then y else m) ys"

fun get :: "op_store \<Rightarrow> py_queue \<Rightarrow> (op_ref \<times> py_queue) option" where
  "get ops (Queue []) = None"
| "get ops (Queue (x # xs)) = Some (x, Queue xs)"
| "get ops (PriorityQueue []) = None"
| "get ops (PriorityQueue (x # xs)) =
     (let m = py_min (IOOperation_lt ops) x xs in Some (m, PriorityQueue (remove1 m (x # xs))))"

text \<open>The loop \<^verbatim>\<open>while not queue.empty(): operations.append(queue.get())\<close>.\<close>

function drain :: "op_store \<Rightarrow> py_queue \<Rightarrow> op_ref list" where
  "drain ops q =
     (if empty_queue q then []
      else (case get ops q of None \<Rightarrow> [] | Some (x, q') \<Rightarrow> x # drain ops q'))"
  by pat_completeness auto
termination
proof (relation "measure (\<lambda>(ops, q). length (entries q))")
  show "wf (measure (\<lambda>(ops, q). length (entries q)))"
    by simp
next
  fix ops :: op_store and q :: py_queue and p x q'
  assume got: "get ops q = Some p" and p: "(x, q') = p"
  have min_in: "py_min lt m ys \<in> set (m # ys)" for lt :: "op_ref \<Rightarrow> op_ref \<Rightarrow> bool" and m ys
    by (induction ys arbitrary: m) auto
  have "length (entries q') < length (entries q)"
  proof (cases q)
    case (Queue xs)
    with got p show ?thesis
      by (cases xs) auto
  next
    case (PriorityQueue xs)
    show ?thesis
    proof (cases xs)
      case Nil
      with got PriorityQueue show ?thesis by simp
    next
      case (Cons y ys)
      have "py_min (IOOperation_lt ops) y ys \<in> set (y # ys)"
        by (rule min_in)
      then have "length (remove1 (py_min (IOOperation_lt ops) y ys) (y # ys)) < length (y # ys)"
        by (simp only: length_remove1 if_True) simp
      with got p PriorityQueue Cons show ?thesis
        by (auto simp: Let_def)
    qed
  qed
  then show "((ops, q'), (ops, q)) \<in> measure (\<lambda>(ops, q). length (entries q))"
    by simp
qed

declare drain.simps [simp del]

fun clear :: "py_queue \<Rightarrow> py_queue" where
  "clear (Queue xs) = Queue []"
| "clear (PriorityQueue xs) = PriorityQueue []"

definition put_all :: "op_ref list \<Rightarrow> py_queue \<Rightarrow> py_queue" where
  "put_all rs q = foldl (\<lambda>q r. put r q) q rs"

section \<open>The scheduler\<close>

text \<open>Class \<^verbatim>\<open>IOScheduler\<close>: the dictionary of queues is keyed by device id.\<close>

record IOScheduler =
  algorithm :: SchedulingAlgorithm
  operation_queues :: "(int \<times> py_queue) list"

definition IOScheduler_init :: "SchedulingAlgorithm \<Rightarrow> IOScheduler" where
  "IOScheduler_init alg = \<lparr>algorithm = alg, operation_queues = []\<rparr>"

definition new_queue :: "SchedulingAlgorithm \<Rightarrow> py_queue" where
  "new_queue alg =
     (if alg = FIFO then Queue []
      else if alg = PRIORIDAD then PriorityQueue []
      else Queue [])"

definition set_algorithm :: "op_store \<Rightarrow> SchedulingAlgorithm \<Rightarrow> IOScheduler \<Rightarrow> IOScheduler" where
  "set_algorithm ops alg s =
     \<lparr>algorithm = alg,
      operation_queues =
        map (\<lambda>(device_id, old_queue). (device_id, put_all (drain ops old_queue) (new_queue alg)))
            (operation_queues s)\<rparr>"

definition add_operation :: "int \<Rightarrow> op_ref \<Rightarrow> IOScheduler \<Rightarrow> IOScheduler" where
  "add_operation device_id io_operation s =
     (case map_of (operation_queues s) device_id of
        None \<Rightarrow>
          s\<lparr>operation_queues :=
              AList.update device_id (put io_operation (new_queue (algorithm s))) (operation_queues s)\<rparr>
      | Some q \<Rightarrow>
          s\<lparr>operation_queues := AList.update device_id (put io_operation q) (operation_queues s)\<rparr>)"

text \<open>\<^verbatim>\<open>self.operation_queues[device_id].get()\<close> on a queue known not to be empty.\<close>

definition queue_get :: "op_store \<Rightarrow> int \<Rightarrow> py_queue \<Rightarrow> IOScheduler \<Rightarrow> op_ref option \<times> IOScheduler" where
  "queue_get ops device_id q s =
     (case get ops q of
        None \<Rightarrow> (None, s)
      | Some (x, q') \<Rightarrow> (Some x, s\<lparr>operation_queues := AList.update device_id q' (operation_queues s)\<rparr>))"

definition get_next_operation :: "op_store \<Rightarrow> int \<Rightarrow> IOScheduler \<Rightarrow> op_ref option \<times> IOScheduler" where
  "get_next_operation ops device_id s =
     (case map_of (operation_queues s) device_id of
        None \<Rightarrow> (None, s)
      | Some q \<Rightarrow>
          if empty_queue q then (None, s)
          else if algorithm s = FIFO then queue_get ops device_id q s
          else if algorithm s = PRIORIDAD then queue_get ops device_id q s
          else if algorithm s = TRABAJO_MAS_CORTO_PRIMERO then
            (case drain ops q of
               [] \<Rightarrow> (None, s\<lparr>operation_queues := AList.update device_id (clear q) (operation_queues s)\<rparr>)
             | x # xs \<Rightarrow>
                 let shortest_op =
                       py_min (\<lambda>a b. data_size_mb (ops a) < data_size_mb (ops b)) x xs;
                     q' = put_all (filter (\<lambda>op. op \<noteq> shortest_op) (x # xs)) (clear q)
                 in (Some shortest_op,
                     s\<lparr>operation_queues := AList.update device_id q' (operation_queues s)\<rparr>))
          else queue_get ops device_id q s)"

definition get_queue_length :: "int \<Rightarrow> IOScheduler \<Rightarrow> nat" where
  "get_queue_length device_id s =
     (case map_of (operation_queues s) device_id of None \<Rightarrow> 0 | Some q \<Rightarrow> length (entries q))"

text \<open>Enqueuing a batch, dequeuing \<open>n\<close> times, and a sequence of scheduler calls.\<close>

definition add_operations :: "int \<Rightarrow> op_ref list \<Rightarrow> IOScheduler \<Rightarrow> IOScheduler" where
  "add_operations device_id rs s = foldl (\<lambda>s r. add_operation device_id r s) s rs"

fun dequeue_n :: "nat \<Rightarrow> op_store \<Rightarrow> int \<Rightarrow> IOScheduler \<Rightarrow> op_ref option list \<times> IOScheduler" where
  "dequeue_n 0 ops device_id s = ([], s)"
| "dequeue_n (Suc n) ops device_id s =
     (let (r, s') = get_next_operation ops device_id s;
          (rs, s'') = dequeue_n n ops device_id s'
      in (r # rs, s''))"

datatype sched_call = Enqueue int op_ref | Dequeue int

fun sched_run :: "op_store \<Rightarrow> IOScheduler \<Rightarrow> sched_call list \<Rightarrow> op_ref option list" where
  "sched_run ops s [] = []"
| "sched_run ops s (Enqueue device_id r # cs) = sched_run ops (add_operation device_id r s) cs"
| "sched_run ops s (Dequeue device_id # cs) =
     (let (r, s') = get_next_operation ops device_id s in r # sched_run ops s' cs)"

section \<open>Interrupts\<close>

text \<open>
  The payload of an interrupt is what \<^verbatim>\<open>*args\<close> and \<^verbatim>\<open>**kwargs\<close> carry. A handler is a
  callable: either one of the bound methods the drivers register, or a callable from
  outside this module, named by a number and given its meaning by an environment. An
  outside callable is any function from the world to a new world that may end by raising.

  \<^typ>\<open>nat\<close> driver references point into the store of drivers.
\<close>

datatype py_arg = ArgOp op_ref | ArgBool bool | ArgInt int | ArgFloat rat | ArgStr string

type_synonym py_args = "py_arg list"

type_synonym py_kwargs = "(string \<times> py_arg) list"

type_synonym driver_ref = nat

datatype handler =
    Block_on_connect driver_ref
  | Block_on_disconnect driver_ref
  | Block_on_error driver_ref
  | Char_on_connect driver_ref
  | Char_on_disconnect driver_ref
  | Char_on_data_available driver_ref
  | Foreign nat

text \<open>
  The exceptions a call can raise. The first six are instances of Python's \<^verbatim>\<open>Exception\<close>;
  \<^verbatim>\<open>SystemExit\<close>, \<^verbatim>\<open>KeyboardInterrupt\<close> and \<^verbatim>\<open>GeneratorExit\<close> derive from
  \<^verbatim>\<open>BaseException\<close> only. Every \<^verbatim>\<open>except\<close> clause of the module is
  \<^verbatim>\<open>except Exception\<close>: it ends the first kind and lets the second kind pass to the
  caller.
\<close>

datatype py_exception =
    TypeError | RecursionError | IOError | ZeroDivisionError | ValueError
  | OtherException string
  | SystemExit | KeyboardInterrupt | GeneratorExit

definition is_Exception :: "py_exception \<Rightarrow> bool" where
  "is_Exception e = (e \<noteq> SystemExit \<and> e \<noteq> KeyboardInterrupt \<and> e \<noteq> GeneratorExit)"

text \<open>
  \<^verbatim>\<open>try: ... except Exception: <log>\<close> around a call whose outcome is the exception it
  raised, if any, and the state it left.
\<close>

definition except_Exception :: "py_exception option \<times> 'a \<Rightarrow> py_exception option \<times> 'a" where
  "except_Exception outcome =
     (case outcome of
        (None, s) \<Rightarrow> (None, s)
      | (Some e, s) \<Rightarrow> if is_Exception e then (None, s) else (Some e, s))"

record interrupt_info =
  irq_type :: string
  irq_time :: rat
  irq_args :: py_args
  irq_kwargs :: py_kwargs

record interrupt_stat =
  stat_count :: int
  last_triggered :: "rat option"

record InterruptTable =
  interrupt_handlers :: "string \<rightharpoonup> handler"
  interrupt_history :: "interrupt_info list"
  interrupt_stats :: "string \<rightharpoonup> interrupt_stat"

definition InterruptTable_init :: InterruptTable where
  "InterruptTable_init =
     \<lparr>interrupt_handlers = Map.empty, interrupt_history = [], interrupt_stats = Map.empty\<rparr>"

section \<open>Devices and drivers\<close>

record DeviceControlBlock =
  device_id :: int
  device_name :: string
  device_type :: DeviceType
  capacity_gb :: rat
  transfer_rate_mb_s :: rat
  status :: DeviceStatus
  current_position :: int
  error_count :: int
  operations_completed :: int
  bytes_transferred :: rat
  last_operation_time :: rat
  dcb_creation_time :: rat

definition DeviceControlBlock_init ::
  "int \<Rightarrow> string \<Rightarrow> DeviceType \<Rightarrow> rat \<Rightarrow> rat \<Rightarrow> rat \<Rightarrow> DeviceControlBlock" where
  "DeviceControlBlock_init ident name ty capacity rate now =
     \<lparr>device_id = ident, device_name = name, device_type = ty, capacity_gb = capacity,
      transfer_rate_mb_s = rate, status = DESCONECTADO, current_position = 0, error_count = 0,
      operations_completed = 0, bytes_transferred = 0, last_operation_time = 0,
      dcb_creation_time = now\<rparr>"

datatype driver_class = BlockDeviceDriver | CharacterDeviceDriver

record DeviceDriver =
  driver_class :: driver_class
  dcb :: DeviceControlBlock
  operation_history :: "op_ref list"

text \<open>
  The objects the drivers share: the requests, the drivers themselves, the one interrupt
  table and the one buffer manager.
\<close>

record world =
  ops :: op_store
  drivers :: "driver_ref \<Rightarrow> DeviceDriver"
  interrupt_table :: InterruptTable
  buffer_manager :: BufferManager

type_synonym foreign_env = "nat \<Rightarrow> py_args \<Rightarrow> py_kwargs \<Rightarrow> world \<Rightarrow> py_exception option \<times> world"

text \<open>
  \<^verbatim>\<open>name.upper().replace(' ', '_')\<close> followed by the event suffix. Device names are
  taken to be ASCII.
\<close>

definition upper_char :: "char \<Rightarrow> char" where
  "upper_char c =
     (case map_of (zip ''abcdefghijklmnopqrstuvwxyz'' ''ABCDEFGHIJKLMNOPQRSTUVWXYZ'') c of
        Some u \<Rightarrow> u
      | None \<Rightarrow> c)"

definition interrupt_name :: "string \<Rightarrow> string \<Rightarrow> string" where
  "interrupt_name name event =
     map (\<lambda>c. if c = CHR '' '' then CHR ''_'' else c) (map upper_char name) @ ''_'' @ event"

definition register_interrupt_handler :: "string \<Rightarrow> handler \<Rightarrow> InterruptTable \<Rightarrow> InterruptTable" where
  "register_interrupt_handler interrupt_type h it =
     it\<lparr>interrupt_handlers := (interrupt_handlers it)(interrupt_type \<mapsto> h),
        interrupt_stats := (interrupt_stats it)(interrupt_type \<mapsto>
                              \<lparr>stat_count = 0, last_triggered = None\<rparr>)\<rparr>"

text \<open>
  The first half of \<^verbatim>\<open>trigger_interrupt\<close>: the history entry and the statistics. The
  readings of the clock within one call are one value \<open>now\<close>.
\<close>

definition record_interrupt :: "rat \<Rightarrow> string \<Rightarrow> py_args \<Rightarrow> py_kwargs \<Rightarrow> InterruptTable \<Rightarrow> InterruptTable" where
  "record_interrupt now interrupt_type args kwargs it =
     (let it1 = it\<lparr>interrupt_history := interrupt_history it @
                     [\<lparr>irq_type = interrupt_type, irq_time = now, irq_args = args,
                       irq_kwargs = kwargs\<rparr>]\<rparr>
      in case interrupt_stats it1 interrupt_type of
           None \<Rightarrow> it1
         | Some st \<Rightarrow>
             it1\<lparr>interrupt_stats := (interrupt_stats it1)(interrupt_type \<mapsto>
                     \<lparr>stat_count = stat_count st + 1, last_triggered = Some now\<rparr>)\<rparr>)"

text \<open>
  Calling a method whose parameters all have defaults: the positional arguments must fit,
  and every keyword must name a parameter no positional argument has filled; otherwise
  the call raises \<^verbatim>\<open>TypeError\<close>.
\<close>

definition binds :: "string list \<Rightarrow> py_args \<Rightarrow> py_kwargs \<Rightarrow> bool" where
  "binds params args kwargs =
     (length args \<le> length params
      \<and> list_all (\<lambda>k. List.member (drop (length args) params) k) (map fst kwargs))"

definition set_status :: "driver_ref \<Rightarrow> DeviceStatus \<Rightarrow> world \<Rightarrow> world" where
  "set_status d st w =
     w\<lparr>drivers := (drivers w)(d := (drivers w d)\<lparr>dcb := (dcb (drivers w d))\<lparr>status := st\<rparr>\<rparr>)\<rparr>"

definition add_error :: "driver_ref \<Rightarrow> world \<Rightarrow> world" where
  "add_error d w =
     w\<lparr>drivers := (drivers w)(d := (drivers w d)\<lparr>dcb := (dcb (drivers w d))
          \<lparr>error_count := error_count (dcb (drivers w d)) + 1\<rparr>\<rparr>)\<rparr>"

text \<open>
  The handlers. \<open>trigger\<close> is \<^verbatim>\<open>self.interrupt_table.trigger_interrupt\<close> as the handler
  may call it, one frame deeper on the interpreter's stack. The result is the exception
  that leaves the handler, if any, and the world it leaves behind; an exception that
  leaves the trigger called by \<^verbatim>\<open>on_disconnect\<close> leaves \<^verbatim>\<open>on_disconnect\<close> too.
\<close>

definition call_handler ::
  "(string \<Rightarrow> py_args \<Rightarrow> py_kwargs \<Rightarrow> world \<Rightarrow> py_exception option \<times> world) \<Rightarrow> foreign_env
     \<Rightarrow> handler \<Rightarrow> py_args \<Rightarrow> py_kwargs \<Rightarrow> world \<Rightarrow> py_exception option \<times> world" where
  "call_handler trigger env h args kwargs w =
     (case h of
        Block_on_connect d \<Rightarrow>
          if binds [] args kwargs then (None, set_status d CONECTADO w) else (Some TypeError, w)
      | Block_on_disconnect d \<Rightarrow>
          if binds [] args kwargs then (None, set_status d DESCONECTADO w) else (Some TypeError, w)
      | Block_on_error d \<Rightarrow>
          if binds [''error_code'', ''error_message''] args kwargs
          then (None, add_error d (set_status d ERROR w))
          else (Some TypeError, w)
      | Char_on_connect d \<Rightarrow>
          if binds [] args kwargs then (None, set_status d CONECTADO w) else (Some TypeError, w)
      | Char_on_disconnect d \<Rightarrow>
          if binds [] args kwargs
          then (let w1 = set_status d DESCONECTADO w
                in trigger (interrupt_name (device_name (dcb (drivers w1 d))) ''DISCONNECT'')
                     [] [] w1)
          else (Some TypeError, w)
      | Char_on_data_available d \<Rightarrow>
          if binds [''data_size''] args kwargs then (None, w) else (Some TypeError, w)
      | Foreign n \<Rightarrow> env n args kwargs w)"

text \<open>
  \<^verbatim>\<open>InterruptTable.trigger_interrupt\<close>. The result is the exception that leaves the
  call, if any, and the world. The handlers can trigger interrupts themselves, so the call
  is recursive; the first argument is the number of nested handler calls that still fit
  on the interpreter's stack. Where none fits, the call of the handler raises
  \<^verbatim>\<open>RecursionError\<close>, which the \<^verbatim>\<open>except Exception\<close> clause ends like any other instance
  of \<^verbatim>\<open>Exception\<close> from the handler. Log messages are not modelled.
\<close>

primrec trigger_interrupt ::
  "nat \<Rightarrow> foreign_env \<Rightarrow> rat \<Rightarrow> string \<Rightarrow> py_args \<Rightarrow> py_kwargs \<Rightarrow> world
     \<Rightarrow> py_exception option \<times> world" where
  "trigger_interrupt 0 env now interrupt_type args kwargs w =
     (let w1 = w\<lparr>interrupt_table := record_interrupt now interrupt_type args kwargs (interrupt_table w)\<rparr>
      in case interrupt_handlers (interrupt_table w1) interrupt_type of
           None \<Rightarrow> (None, w1)
         | Some h \<Rightarrow> except_Exception (Some RecursionError, w1))"
| "trigger_interrupt (Suc depth) env now interrupt_type args kwargs w =
     (let w1 = w\<lparr>interrupt_table := record_interrupt now interrupt_type args kwargs (interrupt_table w)\<rparr>
      in case interrupt_handlers (interrupt_table w1) interrupt_type of
           None \<Rightarrow> (None, w1)
         | Some h \<Rightarrow>
             except_Exception
               (call_handler (trigger_interrupt depth env now) env h args kwargs w1))"

text \<open>The constructors of the two driver classes, placing the new driver at \<open>d\<close>.\<close>

definition BlockDeviceDriver_init :: "driver_ref \<Rightarrow> DeviceControlBlock \<Rightarrow> world \<Rightarrow> world" where
  "BlockDeviceDriver_init d device_control_block w =
     (let name = device_name device_control_block in
      w\<lparr>drivers := (drivers w)(d := \<lparr>driver_class = BlockDeviceDriver, dcb = device_control_block,
                                      operation_history = []\<rparr>),
        interrupt_table :=
          register_interrupt_handler (interrupt_name name ''ERROR'') (Block_on_error d)
            (register_interrupt_handler (interrupt_name name ''DISCONNECT'') (Block_on_disconnect d)
              (register_interrupt_handler (interrupt_name name ''CONNECT'') (Block_on_connect d)
                (interrupt_table w)))\<rparr>)"

definition CharacterDeviceDriver_init :: "driver_ref \<Rightarrow> DeviceControlBlock \<Rightarrow> world \<Rightarrow> world" where
  "CharacterDeviceDriver_init d device_control_block w =
     (let name = device_name device_control_block in
      w\<lparr>drivers := (drivers w)(d := \<lparr>driver_class = CharacterDeviceDriver,
                                      dcb = device_control_block, operation_history = []\<rparr>),
        interrupt_table :=
          register_interrupt_handler (interrupt_name name ''DATA_AVAILABLE'') (Char_on_data_available d)
            (register_interrupt_handler (interrupt_name name ''DISCONNECT'') (Char_on_disconnect d)
              (register_interrupt_handler (interrupt_name name ''CONNECT'') (Char_on_connect d)
                (interrupt_table w)))\<rparr>)"

section \<open>Performing a request\<close>

text \<open>\<^verbatim>\<open>DeviceDriver.perform_operation\<close>, the method of the base class.\<close>

definition base_perform_operation :: "rat \<Rightarrow> driver_ref \<Rightarrow> op_ref \<Rightarrow> world \<Rightarrow> bool \<times> world" where
  "base_perform_operation now d io_operation w =
     (if status (dcb (drivers w d)) \<noteq> CONECTADO then (False, w)
      else
        (True,
         w\<lparr>ops := (ops w)(io_operation := (ops w io_operation)
                     \<lparr>start_time := Some now, op_status := ''EN_PROGRESO''\<rparr>),
           drivers := (drivers w)(d := (drivers w d)
                     \<lparr>operation_history := operation_history (drivers w d) @ [io_operation]\<rparr>)\<rparr>))"

text \<open>
  \<^verbatim>\<open>DeviceDriver.complete_operation\<close>; an exception that leaves the completion interrupt
  leaves this call.
\<close>

definition complete_operation ::
  "nat \<Rightarrow> foreign_env \<Rightarrow> rat \<Rightarrow> driver_ref \<Rightarrow> op_ref \<Rightarrow> bool \<Rightarrow> world
     \<Rightarrow> py_exception option \<times> world" where
  "complete_operation depth env now d io_operation success w =
     (let w1 = w\<lparr>ops := (ops w)(io_operation := (ops w io_operation)
                    \<lparr>completion_time := Some now,
                     op_status := (if success then ''COMPLETADA'' else ''FALLIDA'')\<rparr>)\<rparr>;
          w2 = (if success
                then w1\<lparr>drivers := (drivers w1)(d := (drivers w1 d)\<lparr>dcb := (dcb (drivers w1 d))
                         \<lparr>operations_completed := operations_completed (dcb (drivers w1 d)) + 1,
                          bytes_transferred := bytes_transferred (dcb (drivers w1 d))
                             + data_size_mb (ops w1 io_operation) * 1024 * 1024,
                          last_operation_time := now\<rparr>\<rparr>)\<rparr>
                else add_error d w1);
          w3 = w2\<lparr>buffer_manager :=
                   snd (release_buffer (operation_id (ops w2 io_operation)) (buffer_manager w2))\<rparr>
      in trigger_interrupt depth env now
           (interrupt_name (device_name (dcb (drivers w3 d))) ''OPERATION_COMPLETED'')
           [ArgOp io_operation, ArgBool success] [] w3)"

text \<open>
  The body of the \<^verbatim>\<open>try\<close> block of \<^verbatim>\<open>BlockDeviceDriver.perform_operation\<close>: \<^const>\<open>Inr\<close> is
  a \<^verbatim>\<open>return\<close>, \<^const>\<open>Inl\<close> an exception together with the world at the moment it is
  raised. \<open>fault\<close> is the outcome of the draw \<^verbatim>\<open>random.random() < 0.05\<close>. A division by a
  zero rate raises \<^verbatim>\<open>ZeroDivisionError\<close>, \<^verbatim>\<open>time.sleep\<close> of a negative time raises
  \<^verbatim>\<open>ValueError\<close>; the waiting itself is not modelled.
\<close>

definition block_try ::
  "nat \<Rightarrow> foreign_env \<Rightarrow> rat \<Rightarrow> bool \<Rightarrow> driver_ref \<Rightarrow> op_ref \<Rightarrow> world
     \<Rightarrow> (py_exception \<times> world) + (bool \<times> world)" where
  "block_try depth env now fault d io_operation w =
     (let w1 = set_status d OCUPADO w;
          (allocated, bm) = allocate_buffer (data_size_mb (ops w1 io_operation))
                              (operation_id (ops w1 io_operation)) (buffer_manager w1);
          w2 = w1\<lparr>buffer_manager := bm\<rparr>
      in if \<not> allocated then
           (case complete_operation depth env now d io_operation False w2 of
              (None, w') \<Rightarrow> Inr (False, w')
            | (Some e, w') \<Rightarrow> Inl (e, w'))
         else
           let w3 = (case block_address (ops w2 io_operation) of
                       None \<Rightarrow> w2
                     | Some address \<Rightarrow>
                         w2\<lparr>drivers := (drivers w2)(d := (drivers w2 d)\<lparr>dcb := (dcb (drivers w2 d))
                              \<lparr>current_position := address\<rparr>\<rparr>)\<rparr>)
           in if transfer_rate_mb_s (dcb (drivers w3 d)) = 0 then Inl (ZeroDivisionError, w3)
              else
                let transfer_time = data_size_mb (ops w3 io_operation)
                                      / transfer_rate_mb_s (dcb (drivers w3 d))
                in if fault then
                     (if transfer_time / 3 < 0 then Inl (ValueError, w3) else Inl (IOError, w3))
                   else if transfer_time < 0 then Inl (ValueError, w3)
                   else
                     (case complete_operation depth env now d io_operation True w3 of
                        (None, w') \<Rightarrow> Inr (True, set_status d CONECTADO w')
                      | (Some e, w') \<Rightarrow> Inl (e, w')))"

text \<open>
  The whole method: what it returns (\<^const>\<open>Inr\<close>) or the exception that leaves it
  (\<^const>\<open>Inl\<close>), and the world. The \<^verbatim>\<open>except Exception\<close> clause takes the instances of
  \<^verbatim>\<open>Exception\<close> only, and an exception raised inside the clause leaves the method.
\<close>

definition block_perform_operation ::
  "nat \<Rightarrow> foreign_env \<Rightarrow> rat \<Rightarrow> bool \<Rightarrow> driver_ref \<Rightarrow> op_ref \<Rightarrow> world
     \<Rightarrow> (py_exception + bool) \<times> world" where
  "block_perform_operation depth env now fault d io_operation w =
     (case base_perform_operation now d io_operation w of
        (False, w0) \<Rightarrow> (Inr False, w0)
      | (True, w0) \<Rightarrow>
          (case block_try depth env now fault d io_operation w0 of
             Inr (result, w1) \<Rightarrow> (Inr result, w1)
           | Inl (e, w1) \<Rightarrow>
               if is_Exception e then
                 (case complete_operation depth env now d io_operation False w1 of
                    (None, w2) \<Rightarrow> (Inr False, set_status d ERROR w2)
                  | (Some e', w2) \<Rightarrow> (Inl e', w2))
               else (Inl e, w1)))"

text \<open>
  \<^verbatim>\<open>CharacterDeviceDriver.perform_operation\<close>; here \<open>fault\<close> is the draw
  \<^verbatim>\<open>random.random() < 0.03\<close> and \<open>code\<close> the draw \<^verbatim>\<open>random.randint(1, 100)\<close>.
\<close>

definition char_try ::
  "nat \<Rightarrow> foreign_env \<Rightarrow> rat \<Rightarrow> bool \<Rightarrow> driver_ref \<Rightarrow> op_ref \<Rightarrow> world
     \<Rightarrow> (py_exception \<times> world) + (bool \<times> world)" where
  "char_try depth env now fault d io_operation w =
     (let w1 = set_status d OCUPADO w
      in if transfer_rate_mb_s (dcb (drivers w1 d)) = 0 then Inl (ZeroDivisionError, w1)
         else
           let transfer_time = data_size_mb (ops w1 io_operation)
                                 / transfer_rate_mb_s (dcb (drivers w1 d))
           in if fault then
                (if transfer_time / 2 < 0 then Inl (ValueError, w1) else Inl (IOError, w1))
              else if transfer_time < 0 then Inl (ValueError, w1)
              else
                (case complete_operation depth env now d io_operation True w1 of
                   (None, w') \<Rightarrow> Inr (True, set_status d CONECTADO w')
                 | (Some e, w') \<Rightarrow> Inl (e, w')))"

definition char_perform_operation ::
  "nat \<Rightarrow> foreign_env \<Rightarrow> rat \<Rightarrow> bool \<Rightarrow> int \<Rightarrow> driver_ref \<Rightarrow> op_ref \<Rightarrow> world
     \<Rightarrow> (py_exception + bool) \<times> world" where
  "char_perform_operation depth env now fault code d io_operation w =
     (case base_perform_operation now d io_operation w of
        (False, w0) \<Rightarrow> (Inr False, w0)
      | (True, w0) \<Rightarrow>
          (case char_try depth env now fault d io_operation w0 of
             Inr (result, w1) \<Rightarrow> (Inr result, w1)
           | Inl (e, w1) \<Rightarrow>
               if is_Exception e then
                 (case complete_operation depth env now d io_operation False w1 of
                    (Some e', w2) \<Rightarrow> (Inl e', w2)
                  | (None, w2) \<Rightarrow>
                      (let w3 = set_status d ERROR w2
                       in case trigger_interrupt depth env now
                                 (interrupt_name (device_name (dcb (drivers w3 d))) ''ERROR'') []
                                 [(''error_code'', ArgInt code),
                                  (''error_message'', ArgStr ''Error simulado'')] w3 of
                            (None, w4) \<Rightarrow> (Inr False, w4)
                          | (Some e', w4) \<Rightarrow> (Inl e', w4)))
               else (Inl e, w1)))"

text \<open>The call \<^verbatim>\<open>driver.perform_operation(io_operation)\<close>, dispatched on the driver's class.\<close>

definition perform_operation ::
  "nat \<Rightarrow> foreign_env \<Rightarrow> rat \<Rightarrow> bool \<Rightarrow> int \<Rightarrow> driver_ref \<Rightarrow> op_ref \<Rightarrow> world
     \<Rightarrow> (py_exception + bool) \<times> world" where
  "perform_operation depth env now fault code d io_operation w =
     (case driver_class (drivers w d) of
        BlockDeviceDriver \<Rightarrow> block_perform_operation depth env now fault d io_operation w
      | CharacterDeviceDriver \<Rightarrow> char_perform_operation depth env now fault code d io_operation w)"

section \<open>The manager\<close>

record op_record =
  rec_operation_id :: string
  rec_device_id :: int
  rec_device_name :: string
  rec_operation_type :: OperationType
  rec_data_size_mb :: rat
  rec_process_name :: string
  rec_priority :: int
  rec_creation_time :: rat
  rec_start_time :: "rat option"
  rec_completion_time :: "rat option"
  rec_status :: string
  rec_success :: bool

record manager_stats =
  operations_processed :: int
  operations_succeeded :: int
  operations_failed :: int
  total_data_mb :: rat
  stats_start_time :: rat

text \<open>
  The manager with everything it reaches: the world of the drivers, the table of drivers
  by device id (a dictionary that is iterated), and the scheduler. The status listeners
  are callables from outside, taken as observers: each call made to one is written to
  \<open>notifications\<close> as (listener, device id, request, success), and a listener returns or
  raises an instance of \<^verbatim>\<open>Exception\<close>, which the loop ends.
\<close>

record system =
  core :: world
  driver_table :: "(int \<times> driver_ref) list"
  io_scheduler :: IOScheduler
  stats :: manager_stats
  manager_history :: "op_record list"
  status_listeners :: "nat list"
  notifications :: "(nat \<times> int \<times> op_ref \<times> bool) list"

text \<open>
  The body of the \<^verbatim>\<open>for device_id in ...\<close> loop of \<^verbatim>\<open>IOManager.run\<close>, with the exception
  that leaves it, if any: one that leaves \<^verbatim>\<open>perform_operation\<close>.
\<close>

definition dispatch_device ::
  "nat \<Rightarrow> foreign_env \<Rightarrow> rat \<Rightarrow> bool \<Rightarrow> int \<Rightarrow> int \<Rightarrow> system \<Rightarrow> py_exception option \<times> system" where
  "dispatch_device depth env now fault code dev sys =
     (case map_of (driver_table sys) dev of
        None \<Rightarrow> (None, sys)
      | Some d \<Rightarrow>
          if status (dcb (drivers (core sys) d)) = OCUPADO then (None, sys)
          else
            (case get_next_operation (ops (core sys)) dev (io_scheduler sys) of
               (None, sch) \<Rightarrow> (None, sys\<lparr>io_scheduler := sch\<rparr>)
             | (Some io_operation, sch) \<Rightarrow>
                 let st1 = (stats sys)\<lparr>operations_processed := operations_processed (stats sys) + 1\<rparr>
                 in case perform_operation depth env now fault code d io_operation (core sys) of
                      (Inl e, w) \<Rightarrow> (Some e, sys\<lparr>core := w, io_scheduler := sch, stats := st1\<rparr>)
                    | (Inr success, w) \<Rightarrow>
                        let st2 = (if success
                                   then st1\<lparr>operations_succeeded := operations_succeeded st1 + 1,
                                            total_data_mb := total_data_mb st1
                                               + data_size_mb (ops w io_operation)\<rparr>
                                   else st1\<lparr>operations_failed := operations_failed st1 + 1\<rparr>);
                            op_rec = \<lparr>rec_operation_id = operation_id (ops w io_operation),
                                      rec_device_id = dev,
                                      rec_device_name = device_name (dcb (drivers w d)),
                                      rec_operation_type = operation_type (ops w io_operation),
                                      rec_data_size_mb = data_size_mb (ops w io_operation),
                                      rec_process_name = process_name (ops w io_operation),
                                      rec_priority = priority (ops w io_operation),
                                      rec_creation_time = creation_time (ops w io_operation),
                                      rec_start_time = start_time (ops w io_operation),
                                      rec_completion_time = completion_time (ops w io_operation),
                                      rec_status = op_status (ops w io_operation),
                                      rec_success = success\<rparr>
                        in (None,
                            sys\<lparr>core := w, io_scheduler := sch, stats := st2,
                                manager_history := manager_history sys @ [op_rec],
                                notifications := notifications sys @
                                  map (\<lambda>listener. (listener, dev, io_operation, success))
                                      (status_listeners sys)\<rparr>)))"

text \<open>
  One pass of the \<^verbatim>\<open>while self.running\<close> loop over \<^verbatim>\<open>list(drivers.keys())\<close>; \<open>draws\<close>
  gives the random draws made for each device. An exception ends the \<^verbatim>\<open>for\<close> loop; the
  \<^verbatim>\<open>except Exception\<close> clause around it lets the \<^verbatim>\<open>while\<close> loop go on after an instance of
  \<^verbatim>\<open>Exception\<close>, and anything else leaves \<^verbatim>\<open>run\<close>.
\<close>

fun run_devices ::
  "nat \<Rightarrow> foreign_env \<Rightarrow> rat \<Rightarrow> (int \<Rightarrow> bool \<times> int) \<Rightarrow> int list \<Rightarrow> system
     \<Rightarrow> py_exception option \<times> system" where
  "run_devices depth env now draws [] sys = (None, sys)"
| "run_devices depth env now draws (dev # devs) sys =
     (case dispatch_device depth env now (fst (draws dev)) (snd (draws dev)) dev sys of
        (None, sys') \<Rightarrow> run_devices depth env now draws devs sys'
      | (Some e, sys') \<Rightarrow> (Some e, sys'))"

definition run_iteration ::
  "nat \<Rightarrow> foreign_env \<Rightarrow> rat \<Rightarrow> (int \<Rightarrow> bool \<times> int) \<Rightarrow> system \<Rightarrow> py_exception option \<times> system" where
  "run_iteration depth env now draws sys =
     except_Exception (run_devices depth env now draws (map fst (driver_table sys)) sys)"

section \<open>Concrete scenarios\<close>

text \<open>
  The scenario of \<^verbatim>\<open>test_core_functionality\<close>: a buffer manager of 2048 KB, the block
  device \<^verbatim>\<open>Unidad USB\<close> with id 1 and rate 30, connected through its interrupt, and one
  read of 10 MB at priority 5 in every cell of the request store. Beside it the keyboard
  of the default devices, a character device with id 3 and rate 0.1.
\<close>

definition no_foreign :: foreign_env where
  "no_foreign n args kwargs w = (None, w)"

definition blank_world :: "int \<Rightarrow> world" where
  "blank_world pool_kb =
     \<lparr>ops = (\<lambda>r. IOOperation_init ''0a1b2c3d'' LECTURA 10 ''ProcesoPrueba'' 5 None 0),
      drivers = (\<lambda>d. \<lparr>driver_class = BlockDeviceDriver,
                       dcb = DeviceControlBlock_init 0 [] BLOQUE 0 0 0,
                       operation_history = []\<rparr>),
      interrupt_table = InterruptTable_init,
      buffer_manager = BufferManager_init pool_kb\<rparr>"

definition usb_unplugged :: world where
  "usb_unplugged =
     BlockDeviceDriver_init 0 (DeviceControlBlock_init 1 ''Unidad USB'' BLOQUE 128 30 0)
       (blank_world 2048)"

definition usb_world :: world where
  "usb_world =
     snd (trigger_interrupt 10 no_foreign 0 ''UNIDAD_USB_CONNECT'' [] [] usb_unplugged)"

definition teclado_unplugged :: world where
  "teclado_unplugged =
     CharacterDeviceDriver_init 0 (DeviceControlBlock_init 3 ''Teclado'' CARACTER 0 (1 / 10) 0)
       (blank_world 2048)"

definition teclado_world :: world where
  "teclado_world =
     snd (trigger_interrupt 10 no_foreign 0 ''TECLADO_CONNECT'' [] [] teclado_unplugged)"

text \<open>
  Handlers from outside that raise at once, registered for the event \<^verbatim>\<open>PING\<close>: one
  raises an instance of \<^verbatim>\<open>Exception\<close>, the other calls \<^verbatim>\<open>sys.exit()\<close>.
\<close>

definition raising_env :: foreign_env where
  "raising_env n args kwargs w = (Some (OtherException ''boom''), w)"

definition exiting_env :: foreign_env where
  "exiting_env n args kwargs w = (Some SystemExit, w)"

definition ping_world :: world where
  "ping_world =
     (blank_world 2048)\<lparr>interrupt_table :=
        register_interrupt_handler ''PING'' (Foreign 0) (interrupt_table (blank_world 2048))\<rparr>"

text \<open>
  A manager over the unplugged block device, registered under its id 1, with one listener
  and the request 0 waiting in the FIFO queue of device 1.
\<close>

definition unplugged_system :: system where
  "unplugged_system =
     \<lparr>core = usb_unplugged,
      driver_table = [(1, 0)],
      io_scheduler = add_operation 1 0 (IOScheduler_init FIFO),
      stats = \<lparr>operations_processed = 0, operations_succeeded = 0, operations_failed = 0,
               total_data_mb = 0, stats_start_time = 0\<rparr>,
      manager_history = [],
      status_listeners = [0],
      notifications = []\<rparr>"

text \<open>Three requests of priorities 1, 5, 3 and sizes 50, 5, 20 for the scheduler.\<close>

definition three_ops :: op_store where
  "three_ops r =
     (if r = 0 then IOOperation_init ''00000000'' LECTURA 50 ''P0'' 1 None 0
      else if r = 1 then IOOperation_init ''00000001'' ESCRITURA 5 ''P1'' 5 None 0
      else IOOperation_init ''00000002'' LECTURA 20 ''P2'' 3 None 0)"

section \<open>Invariants used in the proofs\<close>

text \<open>
  The pool: keys are distinct, every live buffer has a non-negative size, the live sizes
  sum to at most the used amount, and the used amount is at most the capacity.
\<close>

definition pool_inv :: "BufferManager \<Rightarrow> bool" where
  "pool_inv bm =
     (distinct (map fst (buffers bm))
      \<and> list_all (\<lambda>p. 0 \<le> size_kb (snd p)) (buffers bm)
      \<and> sum_list (map (size_kb \<circ> snd) (buffers bm)) \<le> used_buffer_kb bm
      \<and> used_buffer_kb bm \<le> total_buffer_size_kb bm)"

text \<open>Two schedulers that differ only in the policy being round-robin or FIFO.\<close>

definition same_queues :: "IOScheduler \<Rightarrow> IOScheduler \<Rightarrow> bool" where
  "same_queues s1 s2 =
     (algorithm s1 = ROUND_ROBIN \<and> algorithm s2 = FIFO \<and> operation_queues s1 = operation_queues s2)"

text \<open>
  An interrupt table that has only grown: the same handlers, a history that extends the
  old one, and for every event with statistics a count that is not smaller. A handler from
  outside is well behaved when it leaves the table grown, whatever else it does. The
  handlers from outside raise instances of \<^verbatim>\<open>Exception\<close> only when every exception that
  leaves one is such an instance.
\<close>

definition table_grows :: "InterruptTable \<Rightarrow> InterruptTable \<Rightarrow> bool" where
  "table_grows it it' =
     (interrupt_handlers it' = interrupt_handlers it
      \<and> (\<exists>ys. interrupt_history it' = interrupt_history it @ ys)
      \<and> (\<forall>n st. interrupt_stats it n = Some st \<longrightarrow>
            (\<exists>st'. interrupt_stats it' n = Some st' \<and> stat_count st \<le> stat_count st')))"

definition env_grows :: "foreign_env \<Rightarrow> bool" where
  "env_grows env =
     (\<forall>n args kwargs w.
        table_grows (interrupt_table w) (interrupt_table (snd (env n args kwargs w))))"

definition env_raises_Exception_only :: "foreign_env \<Rightarrow> bool" where
  "env_raises_Exception_only env =
     (\<forall>n args kwargs w e. fst (env n args kwargs w) = Some e \<longrightarrow> is_Exception e)"

section \<open>The buffer manager\<close>

lemma sum_delete:
  "distinct (map fst xs) \<Longrightarrow> map_of xs k = Some b \<Longrightarrow>
   sum_list (map (size_kb \<circ> snd) (AList.delete k xs)) = sum_list (map (size_kb \<circ> snd) xs) - size_kb b"
proof (induction xs)
  case Nil
  then show ?case by simp
next
  case (Cons p xs)
  show ?case
  proof (cases "fst p = k")
    case True
    with Cons.prems have "snd p = b" and "k \<notin> fst ` set xs"
      by auto
    then have "AList.delete k xs = xs"
      by (simp add: AList.delete_eq filter_id_conv case_prod_beta image_iff)
    with True \<open>snd p = b\<close> show ?thesis
      by (simp add: AList.delete_eq case_prod_beta)
  next
    case False
    with Cons show ?thesis
      by (auto simp add: AList.delete_eq case_prod_beta)
  qed
qed

lemma sum_update:
  "list_all (\<lambda>p. 0 \<le> size_kb (snd p)) xs \<Longrightarrow>
   sum_list (map (size_kb \<circ> snd) (AList.update k b xs)) \<le> sum_list (map (size_kb \<circ> snd) xs) + size_kb b"
  by (induction xs) auto

lemma set_update_sub: "set (AList.update k v xs) \<subseteq> insert (k, v) (set xs)"
  by (induction xs) auto

lemma set_delete_sub: "set (AList.delete k xs) \<subseteq> set xs"
  by (auto simp: AList.delete_eq)

lemma pool_inv_allocate:
  assumes "pool_inv bm" and "0 \<le> py_int (size_mb * 1024)"
  shows "pool_inv (snd (allocate_buffer size_mb oid bm))"
proof (cases "used_buffer_kb bm + py_int (size_mb * 1024) > total_buffer_size_kb bm")
  case True
  with assms show ?thesis by (simp add: allocate_buffer_def)
next
  case False
  let ?sz = "py_int (size_mb * 1024)"
  let ?b = "snd (allocate ?sz oid (Buffer_init ?sz))"
  have sz: "size_kb ?b = ?sz"
    by (simp add: allocate_def Buffer_init_def)
  have "sum_list (map (size_kb \<circ> snd) (AList.update oid ?b (buffers bm)))
          \<le> sum_list (map (size_kb \<circ> snd) (buffers bm)) + size_kb ?b"
    using assms(1) by (intro sum_update) (simp add: pool_inv_def)
  moreover have "list_all (\<lambda>p. 0 \<le> size_kb (snd p)) (AList.update oid ?b (buffers bm))"
    using assms set_update_sub [of oid ?b "buffers bm"] sz
    by (auto simp: pool_inv_def list_all_iff)
  ultimately show ?thesis
    using False assms sz
    by (simp add: allocate_buffer_def Let_def pool_inv_def distinct_update)
qed

lemma pool_inv_release:
  assumes "pool_inv bm"
  shows "pool_inv (snd (release_buffer oid bm))"
proof (cases "map_of (buffers bm) oid")
  case None
  with assms show ?thesis by (simp add: release_buffer_def)
next
  case (Some b)
  then have mem: "(oid, b) \<in> set (buffers bm)"
    by (rule map_of_SomeD)
  with assms have nonneg: "0 \<le> size_kb b"
    by (auto simp: pool_inv_def list_all_iff)
  have "sum_list (map (size_kb \<circ> snd) (AList.delete oid (buffers bm)))
          = sum_list (map (size_kb \<circ> snd) (buffers bm)) - size_kb b"
    using assms Some by (intro sum_delete) (simp_all add: pool_inv_def)
  moreover have "list_all (\<lambda>p. 0 \<le> size_kb (snd p)) (AList.delete oid (buffers bm))"
    using assms set_delete_sub [of oid "buffers bm"]
    by (auto simp: pool_inv_def list_all_iff)
  ultimately show ?thesis
    using Some assms nonneg
    by (simp add: release_buffer_def pool_inv_def distinct_delete)
qed

lemma pool_inv_step:
  "pool_inv bm \<Longrightarrow> 0 \<le> call_size_kb c \<Longrightarrow> pool_inv (pool_step bm c)"
  by (cases c) (simp_all add: pool_inv_allocate pool_inv_release)

lemma pool_inv_run:
  "pool_inv bm \<Longrightarrow> list_all (\<lambda>c. 0 \<le> call_size_kb c) cs \<Longrightarrow> pool_inv (pool_run bm cs)"
  by (induction cs arbitrary: bm) (simp_all add: pool_inv_step)

lemma pool_inv_init: "0 \<le> cap \<Longrightarrow> pool_inv (BufferManager_init cap)"
  by (simp add: pool_inv_def BufferManager_init_def)

lemma sum_nonneg_buffers:
  "list_all (\<lambda>p. 0 \<le> size_kb (snd p)) xs \<Longrightarrow> 0 \<le> sum_list (map (size_kb \<circ> snd) xs)"
  by (induction xs) auto

lemma pool_inv_used_nonneg: "pool_inv bm \<Longrightarrow> 0 \<le> used_buffer_kb bm"
  using sum_nonneg_buffers [of "buffers bm"] by (simp add: pool_inv_def)

lemma total_step: "total_buffer_size_kb (pool_step bm c) = total_buffer_size_kb bm"
  by (cases c) (simp_all add: allocate_buffer_def release_buffer_def Let_def split: option.splits)

lemma total_run: "total_buffer_size_kb (pool_run bm cs) = total_buffer_size_kb bm"
  by (induction cs arbitrary: bm) (simp_all add: total_step)

lemma usage_bounds:
  assumes "pool_inv bm"
  shows "0 \<le> get_buffer_usage bm \<and> get_buffer_usage bm \<le> 100"
proof (cases "total_buffer_size_kb bm > 0")
  case False
  then show ?thesis by (simp add: get_buffer_usage_def)
next
  case True
  from assms have u: "0 \<le> used_buffer_kb bm" "used_buffer_kb bm \<le> total_buffer_size_kb bm"
    by (simp_all add: pool_inv_used_nonneg pool_inv_def)
  define x :: rat where "x = of_int (used_buffer_kb bm) / of_int (total_buffer_size_kb bm)"
  have "x \<le> 1"
    using u True by (simp add: x_def divide_le_eq_1)
  moreover have "0 \<le> x"
    using u True by (simp add: x_def)
  moreover have "get_buffer_usage bm = x * 100"
    using True by (simp add: get_buffer_usage_def x_def)
  ultimately show ?thesis
    by simp
qed

text \<open>
  The class \<^verbatim>\<open>Buffer\<close>, which counts in KB on both sides, accepts exactly when the used
  amount plus the size fits, and changes nothing when it refuses.
\<close>

lemma Buffer_allocate_contract:
  "fst (allocate sz oid b) = (used_kb b + sz \<le> size_kb b)
   \<and> (if fst (allocate sz oid b)
      then used_kb (snd (allocate sz oid b)) = used_kb b + sz
         \<and> map_of (data (snd (allocate sz oid b))) oid = Some sz
      else snd (allocate sz oid b) = b)"
  by (simp add: allocate_def update_conv')

text \<open>
  Claim C3, as stated: \<^verbatim>\<open>allocate(size, request_id)\<close> returns true exactly when
  \<open>used + size \<le> capacity\<close>. It fails on a fresh pool of 1024 KB asked for a size of 2: the
  size is given in MB and the pool counts KB, so the request is for 2048 KB and is refused
  although \<open>0 + 2 \<le> 1024\<close>.
\<close>

theorem allocate_nominal_size_counterexample:
  "\<not> (fst (allocate_buffer 2 ''0a1b2c3d'' (BufferManager_init 1024))
        \<longleftrightarrow> of_int (used_buffer_kb (BufferManager_init 1024)) + (2 :: rat)
              \<le> of_int (total_buffer_size_kb (BufferManager_init 1024)))"
  by (simp add: py_int_def allocate_buffer_def BufferManager_init_def Let_def)

text \<open>
  Claim C3, amended: with \<open>size_kb\<close> the requested size converted to KB, that is
  \<^verbatim>\<open>int(size * 1024)\<close>, the call returns true exactly when \<open>used + size_kb \<le> capacity\<close>;
  on success the used amount grows by \<open>size_kb\<close> and a buffer of that size is recorded under
  the request id, the other entries staying as they are; on failure the pool is unchanged.
\<close>

theorem allocate_buffer_contract:
  "fst (allocate_buffer size_mb oid bm)
     = (used_buffer_kb bm + py_int (size_mb * 1024) \<le> total_buffer_size_kb bm)
   \<and> (if fst (allocate_buffer size_mb oid bm)
      then used_buffer_kb (snd (allocate_buffer size_mb oid bm))
             = used_buffer_kb bm + py_int (size_mb * 1024)
         \<and> total_buffer_size_kb (snd (allocate_buffer size_mb oid bm))
             = total_buffer_size_kb bm
         \<and> map_of (buffers (snd (allocate_buffer size_mb oid bm))) oid
             = Some \<lparr>size_kb = py_int (size_mb * 1024), used_kb = py_int (size_mb * 1024),
                     data = [(oid, py_int (size_mb * 1024))]\<rparr>
         \<and> buffers (snd (allocate_buffer size_mb oid bm))
             = AList.update oid
                 \<lparr>size_kb = py_int (size_mb * 1024), used_kb = py_int (size_mb * 1024),
                  data = [(oid, py_int (size_mb * 1024))]\<rparr> (buffers bm)
      else snd (allocate_buffer size_mb oid bm) = bm)"
  by (simp add: allocate_buffer_def allocate_def Buffer_init_def Let_def update_conv')

theorem allocate_buffer_contract_witness:
  "fst (allocate_buffer (1 / 2) ''0a1b2c3d'' (BufferManager_init 1024))
   \<and> used_buffer_kb (snd (allocate_buffer (1 / 2) ''0a1b2c3d'' (BufferManager_init 1024))) = 512
   \<and> \<not> fst (allocate_buffer 2 ''0a1b2c3d'' (BufferManager_init 1024))
   \<and> snd (allocate_buffer 2 ''0a1b2c3d'' (BufferManager_init 1024)) = BufferManager_init 1024"
  using allocate_buffer_contract [of "1 / 2" "''0a1b2c3d''" "BufferManager_init 1024"]
    allocate_buffer_contract [of 2 "''0a1b2c3d''" "BufferManager_init 1024"]
  by (simp add: py_int_def BufferManager_init_def allocate_buffer_def allocate_def
      Buffer_init_def Let_def)

text \<open>
  Claim C4, as stated: after every sequence of calls on a fresh pool the usage percentage
  lies in \<open>[0, 100]\<close>. It fails for a request of negative size, which the pool accepts: one
  allocation of -1 MB on a fresh pool of 1024 KB leaves -1024 KB used, a usage of -100.
\<close>

theorem pool_negative_size_counterexample:
  "\<not> (0 \<le> get_buffer_usage (pool_run (BufferManager_init 1024) [Allocate (- 1) ''0a1b2c3d'']))"
  by (simp add: py_int_def allocate_buffer_def BufferManager_init_def Buffer_init_def
      allocate_def get_buffer_usage_def Let_def)

text \<open>
  Claim C4, amended: for a fresh pool of non-negative capacity and every finite sequence of
  allocate and release calls whose requested sizes are non-negative, after every prefix of
  the sequence the used amount is at most the capacity and the usage percentage lies in
  \<open>[0, 100]\<close>, being 0 when the capacity is 0.
\<close>

theorem pool_never_overcommitted:
  assumes "0 \<le> cap" and "list_all (\<lambda>c. 0 \<le> call_size_kb c) cs"
  shows "used_buffer_kb (pool_run (BufferManager_init cap) (take n cs)) \<le> cap
       \<and> 0 \<le> get_buffer_usage (pool_run (BufferManager_init cap) (take n cs))
       \<and> get_buffer_usage (pool_run (BufferManager_init cap) (take n cs)) \<le> 100
       \<and> (if cap = 0 then get_buffer_usage (pool_run (BufferManager_init cap) (take n cs)) = 0
          else True)"
proof -
  let ?bm = "pool_run (BufferManager_init cap) (take n cs)"
  have "list_all (\<lambda>c. 0 \<le> call_size_kb c) (take n cs)"
    using assms(2) by (auto simp: list_all_iff dest: in_set_takeD)
  with assms(1) have inv: "pool_inv ?bm"
    by (simp add: pool_inv_run pool_inv_init)
  have cap: "total_buffer_size_kb ?bm = cap"
    by (simp add: BufferManager_init_def total_run)
  from inv cap have "used_buffer_kb ?bm \<le> cap"
    by (simp add: pool_inv_def)
  moreover have "cap = 0 \<longrightarrow> get_buffer_usage ?bm = 0"
    unfolding get_buffer_usage_def cap by simp
  ultimately show ?thesis
    using usage_bounds [OF inv] by simp
qed

theorem pool_never_overcommitted_witness:
  "(0 :: int) \<le> 1024
   \<and> list_all (\<lambda>c. 0 \<le> call_size_kb c)
       [Allocate (1 / 2) ''0a1b2c3d'', Allocate (1 / 4) ''4e5f6a7b'', Release ''0a1b2c3d'']
   \<and> used_buffer_kb (pool_run (BufferManager_init 1024)
       (take 3 [Allocate (1 / 2) ''0a1b2c3d'', Allocate (1 / 4) ''4e5f6a7b'', Release ''0a1b2c3d'']))
       \<le> 1024
   \<and> get_buffer_usage (pool_run (BufferManager_init 1024)
       (take 3 [Allocate (1 / 2) ''0a1b2c3d'', Allocate (1 / 4) ''4e5f6a7b'', Release ''0a1b2c3d'']))
       \<le> 100"
  using pool_never_overcommitted [of 1024
      "[Allocate (1 / 2) ''0a1b2c3d'', Allocate (1 / 4) ''4e5f6a7b'', Release ''0a1b2c3d'']" 3]
  by (simp add: py_int_def allocate_buffer_def release_buffer_def BufferManager_init_def
      Buffer_init_def allocate_def get_buffer_usage_def Let_def)

section \<open>The scheduler\<close>

lemma py_min_mem: "py_min lt m ys \<in> set (m # ys)"
  by (induction ys arbitrary: m) auto

lemma py_min_key_least:
  fixes f :: "'a \<Rightarrow> 'b::linorder"
  shows "\<forall>y \<in> set (m # ys). f (py_min (\<lambda>a b. f a < f b) m ys) \<le> f y"
proof (induction ys arbitrary: m)
  case Nil
  then show ?case by simp
next
  case (Cons y ys)
  let ?m' = "if f y < f m then y else m"
  from Cons [of ?m'] have ih: "\<forall>z \<in> set (?m' # ys). f (py_min (\<lambda>a b. f a < f b) ?m' ys) \<le> f z" .
  then have "f (py_min (\<lambda>a b. f a < f b) ?m' ys) \<le> f ?m'"
    by simp
  moreover have "f ?m' \<le> f m" "f ?m' \<le> f y"
    by auto
  ultimately have "f (py_min (\<lambda>a b. f a < f b) ?m' ys) \<le> f m"
      "f (py_min (\<lambda>a b. f a < f b) ?m' ys) \<le> f y"
    by (meson order_trans)+
  with ih show ?case
    by simp
qed

lemma IOOperation_lt_key: "IOOperation_lt store = (\<lambda>a b. - priority (store a) < - priority (store b))"
  by (simp add: IOOperation_lt_def fun_eq_iff)

lemma py_min_priority_greatest:
  "y \<in> set (m # ys) \<Longrightarrow> priority (store y) \<le> priority (store (py_min (IOOperation_lt store) m ys))"
  using py_min_key_least [where f = "\<lambda>r. - priority (store r)" and m = m and ys = ys]
  by (auto simp add: IOOperation_lt_key)

lemma put_all_Queue: "put_all rs (Queue xs) = Queue (xs @ rs)"
  by (induction rs arbitrary: xs) (simp_all add: put_all_def)

lemma put_all_PriorityQueue: "put_all rs (PriorityQueue xs) = PriorityQueue (xs @ rs)"
  by (induction rs arbitrary: xs) (simp_all add: put_all_def)

lemma drain_Queue: "drain store (Queue xs) = xs"
proof (induction xs)
  case Nil
  show ?case by (simp add: drain.simps [of store "Queue []"] empty_queue_def)
next
  case (Cons x xs)
  then show ?case by (simp add: drain.simps [of store "Queue (x # xs)"] empty_queue_def)
qed

lemma add_operation_queue:
  "map_of (operation_queues (add_operation d r s)) d =
     Some (put r (case map_of (operation_queues s) d of None \<Rightarrow> new_queue (algorithm s) | Some q \<Rightarrow> q))"
  by (simp add: add_operation_def update_conv' split: option.splits)

lemma add_operation_algorithm: "algorithm (add_operation d r s) = algorithm s"
  by (simp add: add_operation_def split: option.splits)

lemma add_operations_algorithm: "algorithm (add_operations d rs s) = algorithm s"
  unfolding add_operations_def by (induction rs arbitrary: s) (simp_all add: add_operation_algorithm)

lemma add_operations_Some:
  "map_of (operation_queues s) d = Some q \<Longrightarrow>
   map_of (operation_queues (add_operations d rs s)) d = Some (put_all rs q)"
  unfolding add_operations_def put_all_def
  by (induction rs arbitrary: s q) (simp_all add: add_operation_queue)

lemma add_operations_None:
  assumes "map_of (operation_queues s) d = None" and "rs \<noteq> []"
  shows "map_of (operation_queues (add_operations d rs s)) d = Some (put_all rs (new_queue (algorithm s)))"
proof (cases rs)
  case Nil
  with assms show ?thesis by simp
next
  case (Cons r rs')
  have "map_of (operation_queues (add_operation d r s)) d = Some (put r (new_queue (algorithm s)))"
    using assms(1) by (simp add: add_operation_queue)
  from add_operations_Some [OF this, of rs'] Cons show ?thesis
    by (simp add: add_operations_def put_all_def add_operation_algorithm)
qed

lemma dequeue_priority:
  assumes "algorithm s = PRIORIDAD"
    and "map_of (operation_queues s) d = Some (PriorityQueue xs)"
  shows "\<exists>ys. fst (dequeue_n (length xs) store d s) = map Some ys \<and> mset ys = mset xs
           \<and> sorted_wrt (\<lambda>a b. priority (store a) \<ge> priority (store b)) ys
           \<and> algorithm (snd (dequeue_n (length xs) store d s)) = PRIORIDAD
           \<and> map_of (operation_queues (snd (dequeue_n (length xs) store d s))) d = Some (PriorityQueue [])"
  using assms
proof (induction "length xs" arbitrary: xs s)
  case 0
  then show ?case by simp
next
  case (Suc n)
  then obtain x xs' where xs: "xs = x # xs'"
    by (cases xs) auto
  define m where "m = py_min (IOOperation_lt store) x xs'"
  define s' where "s' = s\<lparr>operation_queues := AList.update d (PriorityQueue (remove1 m xs)) (operation_queues s)\<rparr>"
  have m_in: "m \<in> set xs"
    unfolding m_def xs by (rule py_min_mem)
  have step: "get_next_operation store d s = (Some m, s')"
    using Suc.prems
    by (simp add: get_next_operation_def xs empty_queue_def queue_get_def m_def s'_def Let_def)
  have len: "n = length (remove1 m xs)"
    using Suc.hyps(2) m_in by (simp add: length_remove1)
  have "algorithm s' = PRIORIDAD" "map_of (operation_queues s') d = Some (PriorityQueue (remove1 m xs))"
    using Suc.prems by (simp_all add: s'_def update_conv')
  from Suc.hyps(1) [OF len this] obtain ys where ys:
    "fst (dequeue_n n store d s') = map Some ys" "mset ys = mset (remove1 m xs)"
    "sorted_wrt (\<lambda>a b. priority (store a) \<ge> priority (store b)) ys"
    "algorithm (snd (dequeue_n n store d s')) = PRIORIDAD"
    "map_of (operation_queues (snd (dequeue_n n store d s'))) d = Some (PriorityQueue [])"
    using len by auto
  have "\<forall>y \<in> set ys. priority (store y) \<le> priority (store m)"
  proof
    fix y assume "y \<in> set ys"
    with ys(2) have "y \<in> set (remove1 m xs)"
      by (metis set_mset_mset)
    then have "y \<in> set (x # xs')"
      using xs by (meson notin_set_remove1)
    then show "priority (store y) \<le> priority (store m)"
      unfolding m_def by (rule py_min_priority_greatest)
  qed
  moreover have "mset (m # ys) = mset xs"
    using ys(2) m_in by simp
  moreover have "dequeue_n (length xs) store d s
      = (Some m # fst (dequeue_n n store d s'), snd (dequeue_n n store d s'))"
    using Suc.hyps(2) [symmetric] step by (simp add: case_prod_beta)
  ultimately show ?case
    using ys by (intro exI [of _ "m # ys"]) simp
qed

text \<open>
  Claim C5: under the priority policy, when a batch of requests is enqueued for a device
  whose queue is empty and then all of them are dequeued, every dequeue returns a request,
  the requests returned are those of the batch, their priority values never increase
  along the sequence, and the dequeue after the last one returns nothing.
\<close>

theorem priority_dequeue_non_increasing:
  assumes "algorithm s = PRIORIDAD"
    and "map_of (operation_queues s) dev = None
         \<or> map_of (operation_queues s) dev = Some (PriorityQueue [])"
  shows "\<exists>ys. fst (dequeue_n (length rs) store dev (add_operations dev rs s)) = map Some ys
           \<and> mset ys = mset rs
           \<and> sorted_wrt (\<lambda>a b. priority (store a) \<ge> priority (store b)) ys
           \<and> fst (get_next_operation store dev
                  (snd (dequeue_n (length rs) store dev (add_operations dev rs s)))) = None"
proof (cases "rs = []")
  case True
  with assms show ?thesis
    by (auto simp: add_operations_def get_next_operation_def empty_queue_def)
next
  case False
  have "map_of (operation_queues (add_operations dev rs s)) dev = Some (PriorityQueue rs)"
    using assms False add_operations_None [of s dev rs]
      add_operations_Some [of s dev "PriorityQueue []" rs]
    by (auto simp: new_queue_def put_all_PriorityQueue)
  from dequeue_priority [OF _ this, of store] assms(1) obtain ys where
    "fst (dequeue_n (length rs) store dev (add_operations dev rs s)) = map Some ys"
    "mset ys = mset rs"
    "sorted_wrt (\<lambda>a b. priority (store a) \<ge> priority (store b)) ys"
    "map_of (operation_queues (snd (dequeue_n (length rs) store dev
        (add_operations dev rs s)))) dev = Some (PriorityQueue [])"
    by (auto simp: add_operations_algorithm)
  then show ?thesis
    by (intro exI [of _ ys]) (simp add: get_next_operation_def empty_queue_def)
qed

theorem priority_dequeue_witness:
  "algorithm (IOScheduler_init PRIORIDAD) = PRIORIDAD
   \<and> map_of (operation_queues (IOScheduler_init PRIORIDAD)) 1 = None
   \<and> (\<exists>ys. fst (dequeue_n (length [0, 1, 2 :: nat]) three_ops 1
               (add_operations 1 [0, 1, 2] (IOScheduler_init PRIORIDAD))) = map Some ys
         \<and> mset ys = mset [0, 1, 2]
         \<and> sorted_wrt (\<lambda>a b. priority (three_ops a) \<ge> priority (three_ops b)) ys
         \<and> fst (get_next_operation three_ops 1
                (snd (dequeue_n (length [0, 1, 2 :: nat]) three_ops 1
                   (add_operations 1 [0, 1, 2] (IOScheduler_init PRIORIDAD))))) = None)"
  using priority_dequeue_non_increasing [of "IOScheduler_init PRIORIDAD" 1 "[0, 1, 2]" three_ops]
  by (simp add: IOScheduler_init_def)

text \<open>
  Claim C6: under the shortest-request-first policy, after a non-empty batch is enqueued
  for a device whose queue is empty, the first dequeue returns a request of the batch
  whose data size is the least of the batch, and the device's queue then holds the other
  requests of the batch, in their order of arrival.
\<close>

theorem sjf_first_dequeue_minimal:
  assumes "algorithm s = TRABAJO_MAS_CORTO_PRIMERO"
    and "map_of (operation_queues s) dev = None
         \<or> map_of (operation_queues s) dev = Some (Queue [])"
    and "rs \<noteq> []"
  shows "\<exists>m s'. get_next_operation store dev (add_operations dev rs s) = (Some m, s')
           \<and> m \<in> set rs
           \<and> (\<forall>r \<in> set rs. data_size_mb (store m) \<le> data_size_mb (store r))
           \<and> map_of (operation_queues s') dev = Some (Queue (filter (\<lambda>r. r \<noteq> m) rs))"
proof -
  obtain x xs where rs: "rs = x # xs"
    using assms(3) by (cases rs) auto
  define m where "m = py_min (\<lambda>a b. data_size_mb (store a) < data_size_mb (store b)) x xs"
  have q: "map_of (operation_queues (add_operations dev rs s)) dev = Some (Queue rs)"
    using assms add_operations_None [of s dev rs]
      add_operations_Some [of s dev "Queue []" rs]
    by (auto simp: new_queue_def put_all_Queue)
  have "m \<in> set rs"
    unfolding m_def rs by (rule py_min_mem)
  moreover have "\<forall>r \<in> set rs. data_size_mb (store m) \<le> data_size_mb (store r)"
    unfolding m_def rs by (rule py_min_key_least)
  moreover have "get_next_operation store dev (add_operations dev rs s) =
      (Some m, (add_operations dev rs s)\<lparr>operation_queues :=
          AList.update dev (Queue (filter (\<lambda>r. r \<noteq> m) rs))
            (operation_queues (add_operations dev rs s))\<rparr>)"
    using assms(1) q rs
    by (simp add: get_next_operation_def empty_queue_def drain_Queue Let_def put_all_Queue m_def
        add_operations_algorithm)
  ultimately show ?thesis
    by (simp add: update_conv')
qed

theorem sjf_first_dequeue_witness:
  "algorithm (IOScheduler_init TRABAJO_MAS_CORTO_PRIMERO) = TRABAJO_MAS_CORTO_PRIMERO
   \<and> map_of (operation_queues (IOScheduler_init TRABAJO_MAS_CORTO_PRIMERO)) 1 = None
   \<and> [0, 1, 2 :: nat] \<noteq> []
   \<and> (\<exists>m s'. get_next_operation three_ops 1
               (add_operations 1 [0, 1, 2] (IOScheduler_init TRABAJO_MAS_CORTO_PRIMERO)) = (Some m, s')
         \<and> m \<in> set [0, 1, 2]
         \<and> (\<forall>r \<in> set [0, 1, 2]. data_size_mb (three_ops m) \<le> data_size_mb (three_ops r))
         \<and> map_of (operation_queues s') 1 = Some (Queue (filter (\<lambda>r. r \<noteq> m) [0, 1, 2])))"
  using sjf_first_dequeue_minimal [of "IOScheduler_init TRABAJO_MAS_CORTO_PRIMERO" 1 "[0, 1, 2]" three_ops]
  by (simp add: IOScheduler_init_def)

lemma same_queues_add: "same_queues s1 s2 \<Longrightarrow> same_queues (add_operation d r s1) (add_operation d r s2)"
  by (simp add: same_queues_def add_operation_def new_queue_def split: option.splits)

lemma same_queues_get:
  assumes "same_queues s1 s2"
  shows "fst (get_next_operation store d s1) = fst (get_next_operation store d s2)
       \<and> same_queues (snd (get_next_operation store d s1)) (snd (get_next_operation store d s2))"
  using assms
  by (simp add: same_queues_def get_next_operation_def queue_get_def split: option.splits)

lemma same_queues_run: "same_queues s1 s2 \<Longrightarrow> sched_run store s1 cs = sched_run store s2 cs"
proof (induction cs arbitrary: s1 s2)
  case Nil
  then show ?case by simp
next
  case (Cons c cs)
  show ?case
  proof (cases c)
    case (Enqueue d r)
    with Cons show ?thesis by (simp add: same_queues_add)
  next
    case (Dequeue d)
    with Cons same_queues_get [OF Cons.prems, of store d] show ?thesis
      by (simp add: case_prod_beta)
  qed
qed

text \<open>
  Switching a scheduler to round-robin rebuilds its queues exactly as switching it to FIFO
  does.
\<close>

lemma round_robin_switch_is_fifo_switch:
  "same_queues (set_algorithm store ROUND_ROBIN s) (set_algorithm store FIFO s)"
  by (simp add: same_queues_def set_algorithm_def new_queue_def)

text \<open>
  Claim C7: for every sequence of enqueue and dequeue calls, on one device or on several,
  a scheduler created with the round-robin policy returns from its dequeues exactly what
  a scheduler created with the FIFO policy returns.
\<close>

theorem round_robin_is_fifo:
  "sched_run store (IOScheduler_init ROUND_ROBIN) cs = sched_run store (IOScheduler_init FIFO) cs"
  by (rule same_queues_run) (simp add: same_queues_def IOScheduler_init_def)

section \<open>Interrupts\<close>

lemma record_interrupt_handlers:
  "interrupt_handlers (record_interrupt now name args kwargs it) = interrupt_handlers it"
  by (simp add: record_interrupt_def Let_def split: option.splits)

lemma record_interrupt_history:
  "interrupt_history (record_interrupt now name args kwargs it)
     = interrupt_history it
       @ [\<lparr>irq_type = name, irq_time = now, irq_args = args, irq_kwargs = kwargs\<rparr>]"
  by (simp add: record_interrupt_def Let_def split: option.splits)

lemma record_interrupt_stats:
  "interrupt_stats (record_interrupt now name args kwargs it) =
     (case interrupt_stats it name of
        None \<Rightarrow> interrupt_stats it
      | Some st \<Rightarrow>
          (interrupt_stats it)(name \<mapsto> \<lparr>stat_count = stat_count st + 1, last_triggered = Some now\<rparr>))"
  by (simp add: record_interrupt_def Let_def split: option.splits)

lemma except_Exception_snd: "snd (except_Exception outcome) = snd outcome"
  by (simp add: except_Exception_def split: prod.splits option.splits)

lemma except_Exception_None: "except_Exception (None, s) = (None, s)"
  by (simp add: except_Exception_def)

lemma except_Exception_caught: "is_Exception e \<Longrightarrow> except_Exception (Some e, s) = (None, s)"
  by (simp add: except_Exception_def)

lemma except_Exception_passed: "\<not> is_Exception e \<Longrightarrow> except_Exception (Some e, s) = (Some e, s)"
  by (simp add: except_Exception_def)

lemma except_Exception_id: "fst outcome = None \<Longrightarrow> except_Exception outcome = outcome"
  by (cases outcome) (simp add: except_Exception_def)

lemma except_Exception_fst:
  "fst (except_Exception outcome) = Some e \<Longrightarrow> fst outcome = Some e \<and> \<not> is_Exception e"
  by (auto simp: except_Exception_def split: prod.splits option.splits if_splits)

lemma is_Exception_simps:
  "is_Exception TypeError" "is_Exception RecursionError" "is_Exception IOError"
  "is_Exception ZeroDivisionError" "is_Exception ValueError" "is_Exception (OtherException msg)"
  "\<not> is_Exception SystemExit" "\<not> is_Exception KeyboardInterrupt" "\<not> is_Exception GeneratorExit"
  by (simp_all add: is_Exception_def)

lemma trigger_no_handler:
  assumes "interrupt_handlers (interrupt_table w) name = None"
  shows "trigger_interrupt depth env now name args kwargs w
           = (None, w\<lparr>interrupt_table := record_interrupt now name args kwargs (interrupt_table w)\<rparr>)"
  using assms by (cases depth) (simp_all add: Let_def record_interrupt_handlers)

lemma binds_nothing: "binds [] [] []"
  by (simp add: binds_def)

lemma table_grows_refl: "table_grows it it"
  by (simp add: table_grows_def)

lemma table_grows_trans:
  assumes "table_grows a b" and "table_grows b c"
  shows "table_grows a c"
proof -
  from assms obtain ys zs where "interrupt_history b = interrupt_history a @ ys"
      "interrupt_history c = interrupt_history b @ zs"
    by (auto simp: table_grows_def)
  then have "interrupt_history c = interrupt_history a @ (ys @ zs)"
    by simp
  moreover have "\<forall>n st. interrupt_stats a n = Some st \<longrightarrow>
            (\<exists>st'. interrupt_stats c n = Some st' \<and> stat_count st \<le> stat_count st')"
    using assms unfolding table_grows_def by (meson order_trans)
  ultimately show ?thesis
    using assms unfolding table_grows_def by metis
qed

lemma table_grows_record: "table_grows it (record_interrupt now name args kwargs it)"
  by (auto simp: table_grows_def record_interrupt_handlers record_interrupt_history
      record_interrupt_stats split: option.splits)

lemma trigger_interrupt_grows_from_record:
  assumes "env_grows env"
  shows "table_grows (record_interrupt now name args kwargs (interrupt_table w))
           (interrupt_table (snd (trigger_interrupt depth env now name args kwargs w)))"
proof (induction depth arbitrary: name args kwargs w)
  case 0
  show ?case
    by (simp add: Let_def table_grows_refl except_Exception_snd split: option.splits)
next
  case (Suc depth)
  define w1 where "w1 = w\<lparr>interrupt_table := record_interrupt now name args kwargs (interrupt_table w)\<rparr>"
  have g: "table_grows (interrupt_table w1)
      (interrupt_table (snd (call_handler (trigger_interrupt depth env now) env h args kwargs w1)))" for h
  proof (cases h)
    case (Char_on_disconnect d)
    have "table_grows (interrupt_table (set_status d DESCONECTADO w1))
        (interrupt_table (snd (trigger_interrupt depth env now nm [] []
           (set_status d DESCONECTADO w1))))" for nm
      using table_grows_record Suc.IH by (rule table_grows_trans)
    then show ?thesis
      using Char_on_disconnect
      by (simp add: call_handler_def Let_def set_status_def table_grows_refl)
  next
    case (Foreign n)
    with assms show ?thesis
      by (simp add: call_handler_def env_grows_def)
  qed (simp_all add: call_handler_def set_status_def add_error_def table_grows_refl)
  show ?case
  proof (cases "interrupt_handlers (interrupt_table w1) name")
    case None
    then show ?thesis
      by (simp add: Let_def w1_def table_grows_refl)
  next
    case (Some h)
    have "snd (trigger_interrupt (Suc depth) env now name args kwargs w)
        = snd (call_handler (trigger_interrupt depth env now) env h args kwargs w1)"
      using Some by (simp add: Let_def w1_def except_Exception_snd)
    with g [of h] show ?thesis
      by (simp add: w1_def)
  qed
qed

lemma trigger_interrupt_entry_kept:
  assumes "env_grows env"
    and "interrupt_stats (interrupt_table w) name = Some st"
  shows "\<exists>ys st'. interrupt_history (interrupt_table
                      (snd (trigger_interrupt depth env now name args kwargs w)))
            = interrupt_history (interrupt_table w)
              @ \<lparr>irq_type = name, irq_time = now, irq_args = args, irq_kwargs = kwargs\<rparr> # ys
         \<and> interrupt_stats (interrupt_table
              (snd (trigger_interrupt depth env now name args kwargs w))) name = Some st'
         \<and> stat_count st + 1 \<le> stat_count st'"
proof -
  let ?it1 = "record_interrupt now name args kwargs (interrupt_table w)"
  let ?it2 = "interrupt_table (snd (trigger_interrupt depth env now name args kwargs w))"
  have g: "table_grows ?it1 ?it2"
    using assms(1) by (rule trigger_interrupt_grows_from_record)
  then obtain ys where "interrupt_history ?it2 = interrupt_history ?it1 @ ys"
    by (auto simp: table_grows_def)
  then have h: "interrupt_history ?it2 = interrupt_history (interrupt_table w)
      @ \<lparr>irq_type = name, irq_time = now, irq_args = args, irq_kwargs = kwargs\<rparr> # ys"
    by (simp add: record_interrupt_history)
  have "interrupt_stats ?it1 name = Some \<lparr>stat_count = stat_count st + 1, last_triggered = Some now\<rparr>"
    using assms(2) by (simp add: record_interrupt_stats)
  with g obtain st' where "interrupt_stats ?it2 name = Some st'" "stat_count st + 1 \<le> stat_count st'"
    unfolding table_grows_def by fastforce
  with h show ?thesis
    by blast
qed

text \<open>
  Only what is not an instance of \<^verbatim>\<open>Exception\<close> leaves a trigger; and when the handlers
  from outside raise instances of \<^verbatim>\<open>Exception\<close> only, nothing leaves it, however the
  handlers nest.
\<close>

lemma trigger_interrupt_escape:
  "fst (trigger_interrupt depth env now name args kwargs w) = Some e \<Longrightarrow> \<not> is_Exception e"
  by (cases depth)
    (auto simp: Let_def split: option.splits dest: except_Exception_fst)

lemma trigger_interrupt_returns:
  assumes "env_raises_Exception_only env"
  shows "fst (trigger_interrupt depth env now name args kwargs w) = None"
proof (induction depth arbitrary: name args kwargs w)
  case 0
  show ?case
    by (simp add: Let_def except_Exception_caught is_Exception_simps split: option.splits)
next
  case (Suc depth)
  define w1 where "w1 = w\<lparr>interrupt_table := record_interrupt now name args kwargs (interrupt_table w)\<rparr>"
  have c: "fst (except_Exception
      (call_handler (trigger_interrupt depth env now) env h args kwargs w1)) = None" for h
  proof (cases "fst (except_Exception
      (call_handler (trigger_interrupt depth env now) env h args kwargs w1))")
    case None
    then show ?thesis .
  next
    case (Some e)
    then have raised: "fst (call_handler (trigger_interrupt depth env now) env h args kwargs w1) = Some e"
      and base: "\<not> is_Exception e"
      by (auto dest: except_Exception_fst)
    have "is_Exception e"
    proof (cases h)
      case (Foreign n)
      with raised assms show ?thesis
        by (simp add: call_handler_def env_raises_Exception_only_def)
    next
      case (Char_on_disconnect d)
      with raised Suc.IH show ?thesis
        by (auto simp: call_handler_def Let_def is_Exception_simps split: if_splits)
    qed (use raised in \<open>auto simp: call_handler_def is_Exception_simps split: if_splits\<close>)
    with base show ?thesis
      by simp
  qed
  show ?case
    using c by (simp add: Let_def w1_def split: option.splits)
qed

text \<open>
  Claim C9, as stated: whatever the registered handler raises is caught and \<^verbatim>\<open>trigger\<close>
  returns normally. It fails for a handler that calls \<^verbatim>\<open>sys.exit()\<close>: \<^verbatim>\<open>SystemExit\<close> is not
  an instance of \<^verbatim>\<open>Exception\<close>, the \<^verbatim>\<open>except Exception\<close> clause lets it pass, and it
  reaches the caller of \<^verbatim>\<open>trigger\<close>.
\<close>

theorem trigger_interrupt_SystemExit_counterexample:
  "interrupt_handlers (interrupt_table ping_world) ''PING'' = Some (Foreign 0)
   \<and> fst (call_handler (trigger_interrupt 4 exiting_env 1) exiting_env (Foreign 0) [ArgInt 1] []
        (ping_world\<lparr>interrupt_table :=
           record_interrupt 1 ''PING'' [ArgInt 1] [] (interrupt_table ping_world)\<rparr>))
      = Some SystemExit
   \<and> fst (trigger_interrupt 5 exiting_env 1 ''PING'' [ArgInt 1] [] ping_world) = Some SystemExit"
proof -
  have h: "interrupt_handlers (interrupt_table ping_world) ''PING'' = Some (Foreign 0)"
    by (simp add: ping_world_def register_interrupt_handler_def)
  have c: "call_handler trig exiting_env (Foreign 0) a k v = (Some SystemExit, v)" for trig a k v
    by (simp add: call_handler_def exiting_env_def)
  have "fst (trigger_interrupt 5 exiting_env 1 ''PING'' [ArgInt 1] [] ping_world)
      = Some SystemExit"
    by code_simp
  with h c show ?thesis
    by simp
qed

text \<open>
  Claim C9, amended: when a handler is registered for an event name, \<^verbatim>\<open>trigger\<close> first
  appends the history entry and increments the event's counter, then calls the handler
  with the payload on the state so updated. When the handler returns, or raises an
  instance of \<^verbatim>\<open>Exception\<close>, \<^verbatim>\<open>trigger\<close> returns normally with the state the handler
  leaves; an exception that is not an instance of \<^verbatim>\<open>Exception\<close> reaches the caller.
  Where the stack has no room for the call, the handler is not entered and \<^verbatim>\<open>trigger\<close>
  returns normally. When the handlers from outside raise instances of \<^verbatim>\<open>Exception\<close>
  only, \<^verbatim>\<open>trigger\<close> returns normally at every depth; and with the drivers' handlers, and
  handlers from outside that only let the table grow, the entry is still in the history
  and the counter still incremented when the call ends.
\<close>

theorem trigger_interrupt_catches_Exception:
  assumes "interrupt_handlers (interrupt_table w) name = Some h"
    and "interrupt_stats (interrupt_table w) name = Some st"
  shows "\<exists>w1. w1 = w\<lparr>interrupt_table := record_interrupt now name args kwargs (interrupt_table w)\<rparr>
           \<and> interrupt_history (interrupt_table w1)
               = interrupt_history (interrupt_table w)
                 @ [\<lparr>irq_type = name, irq_time = now, irq_args = args, irq_kwargs = kwargs\<rparr>]
           \<and> interrupt_stats (interrupt_table w1) name
               = Some \<lparr>stat_count = stat_count st + 1, last_triggered = Some now\<rparr>
           \<and> (\<forall>w2. call_handler (trigger_interrupt depth env now) env h args kwargs w1 = (None, w2)
                  \<longrightarrow> trigger_interrupt (Suc depth) env now name args kwargs w = (None, w2))
           \<and> (\<forall>e w2. call_handler (trigger_interrupt depth env now) env h args kwargs w1
                        = (Some e, w2) \<and> is_Exception e
                  \<longrightarrow> trigger_interrupt (Suc depth) env now name args kwargs w = (None, w2))
           \<and> (\<forall>e w2. call_handler (trigger_interrupt depth env now) env h args kwargs w1
                        = (Some e, w2) \<and> \<not> is_Exception e
                  \<longrightarrow> trigger_interrupt (Suc depth) env now name args kwargs w = (Some e, w2))
           \<and> trigger_interrupt 0 env now name args kwargs w = (None, w1)
           \<and> (env_raises_Exception_only env
                \<longrightarrow> fst (trigger_interrupt n env now name args kwargs w) = None)
           \<and> (env_grows env \<longrightarrow>
                (\<exists>ys st'. interrupt_history (interrupt_table
                               (snd (trigger_interrupt n env now name args kwargs w)))
                             = interrupt_history (interrupt_table w)
                               @ \<lparr>irq_type = name, irq_time = now, irq_args = args,
                                  irq_kwargs = kwargs\<rparr> # ys
                   \<and> interrupt_stats (interrupt_table
                         (snd (trigger_interrupt n env now name args kwargs w))) name = Some st'
                   \<and> stat_count st + 1 \<le> stat_count st'))"
proof -
  have kept: "env_grows env \<longrightarrow>
      (\<exists>ys st'. interrupt_history (interrupt_table
                     (snd (trigger_interrupt n env now name args kwargs w)))
                   = interrupt_history (interrupt_table w)
                     @ \<lparr>irq_type = name, irq_time = now, irq_args = args, irq_kwargs = kwargs\<rparr> # ys
         \<and> interrupt_stats (interrupt_table
               (snd (trigger_interrupt n env now name args kwargs w))) name = Some st'
         \<and> stat_count st + 1 \<le> stat_count st')"
    using assms(2) by (auto dest: trigger_interrupt_entry_kept)
  have returns: "env_raises_Exception_only env
      \<longrightarrow> fst (trigger_interrupt n env now name args kwargs w) = None"
    by (simp add: trigger_interrupt_returns)
  show ?thesis
    using assms kept returns
    by (simp add: record_interrupt_handlers record_interrupt_history record_interrupt_stats
        Let_def except_Exception_None except_Exception_caught except_Exception_passed
        is_Exception_simps)
qed

theorem trigger_interrupt_catches_Exception_witness:
  "interrupt_handlers (interrupt_table ping_world) ''PING'' = Some (Foreign 0)
   \<and> interrupt_stats (interrupt_table ping_world) ''PING''
       = Some \<lparr>stat_count = 0, last_triggered = None\<rparr>
   \<and> env_raises_Exception_only raising_env
   \<and> env_grows raising_env
   \<and> is_Exception (OtherException ''boom'')
   \<and> call_handler (trigger_interrupt 4 raising_env 1) raising_env (Foreign 0) [ArgInt 1] []
        (ping_world\<lparr>interrupt_table :=
           record_interrupt 1 ''PING'' [ArgInt 1] [] (interrupt_table ping_world)\<rparr>)
      = (Some (OtherException ''boom''),
         ping_world\<lparr>interrupt_table :=
           record_interrupt 1 ''PING'' [ArgInt 1] [] (interrupt_table ping_world)\<rparr>)
   \<and> trigger_interrupt (Suc 4) raising_env 1 ''PING'' [ArgInt 1] [] ping_world
      = (None, ping_world\<lparr>interrupt_table :=
          record_interrupt 1 ''PING'' [ArgInt 1] [] (interrupt_table ping_world)\<rparr>)
   \<and> fst (trigger_interrupt 5 raising_env 1 ''PING'' [ArgInt 1] [] ping_world) = None
   \<and> interrupt_stats (interrupt_table
        (snd (trigger_interrupt (Suc 4) raising_env 1 ''PING'' [ArgInt 1] [] ping_world))) ''PING''
      = Some \<lparr>stat_count = 1, last_triggered = Some 1\<rparr>
   \<and> (\<exists>ys st'. interrupt_history (interrupt_table
                    (snd (trigger_interrupt 5 raising_env 1 ''PING'' [ArgInt 1] [] ping_world)))
                  = interrupt_history (interrupt_table ping_world)
                    @ \<lparr>irq_type = ''PING'', irq_time = 1, irq_args = [ArgInt 1],
                       irq_kwargs = []\<rparr> # ys
         \<and> interrupt_stats (interrupt_table
              (snd (trigger_interrupt 5 raising_env 1 ''PING'' [ArgInt 1] [] ping_world))) ''PING''
            = Some st'
         \<and> stat_count \<lparr>stat_count = 0, last_triggered = None\<rparr> + 1 \<le> stat_count st')"
proof -
  have h: "interrupt_handlers (interrupt_table ping_world) ''PING'' = Some (Foreign 0)"
    by (simp add: ping_world_def register_interrupt_handler_def)
  have s: "interrupt_stats (interrupt_table ping_world) ''PING''
             = Some \<lparr>stat_count = 0, last_triggered = None\<rparr>"
    by (simp add: ping_world_def register_interrupt_handler_def)
  have c: "call_handler trig raising_env (Foreign 0) a k v = (Some (OtherException ''boom''), v)"
    for trig a k v
    by (simp add: call_handler_def raising_env_def)
  have g: "env_grows raising_env"
    by (simp add: env_grows_def raising_env_def table_grows_refl)
  have r: "env_raises_Exception_only raising_env"
    by (simp add: env_raises_Exception_only_def raising_env_def is_Exception_simps)
  have i: "is_Exception (OtherException ''boom'')"
    by (simp add: is_Exception_simps)
  from trigger_interrupt_catches_Exception
         [OF h s, where now = 1 and args = "[ArgInt 1]" and kwargs = "[]" and depth = 4
            and env = raising_env and n = 5] h s c g r i
  show ?thesis
    by simp
qed

text \<open>
  Claim C2, on the code: the disconnect handler of a character device triggers the very
  interrupt it is registered for, so every call of the handler makes another one. With
  room for \<open>depth\<close> nested handler calls on the stack, one trigger of the disconnect interrupt
  records \<open>depth + 1\<close> disconnect entries in the history, not two: the recursion ends only
  when the stack is exhausted. The device is left disconnected as soon as the handler has
  run once.
\<close>

theorem char_disconnect_recursion:
  assumes "interrupt_handlers (interrupt_table w)
             (interrupt_name (device_name (dcb (drivers w d))) ''DISCONNECT'')
           = Some (Char_on_disconnect d)"
  shows "fst (trigger_interrupt depth env now
               (interrupt_name (device_name (dcb (drivers w d))) ''DISCONNECT'') [] [] w) = None
       \<and> interrupt_history (interrupt_table
            (snd (trigger_interrupt depth env now
               (interrupt_name (device_name (dcb (drivers w d))) ''DISCONNECT'') [] [] w)))
         = interrupt_history (interrupt_table w)
           @ replicate (Suc depth)
               \<lparr>irq_type = interrupt_name (device_name (dcb (drivers w d))) ''DISCONNECT'',
                irq_time = now, irq_args = [], irq_kwargs = []\<rparr>
       \<and> status (dcb (drivers
            (snd (trigger_interrupt depth env now
               (interrupt_name (device_name (dcb (drivers w d))) ''DISCONNECT'') [] [] w)) d))
         = (if depth = 0 then status (dcb (drivers w d)) else DESCONECTADO)"
  using assms
proof (induction depth arbitrary: w)
  case 0
  then show ?case
    by (simp add: record_interrupt_handlers record_interrupt_history Let_def
        except_Exception_caught is_Exception_simps)
next
  case (Suc depth)
  let ?name = "interrupt_name (device_name (dcb (drivers w d))) ''DISCONNECT''"
  define w2 where "w2 = set_status d DESCONECTADO
      (w\<lparr>interrupt_table := record_interrupt now ?name [] [] (interrupt_table w)\<rparr>)"
  have nm: "device_name (dcb (drivers w2 d)) = device_name (dcb (drivers w d))"
    by (simp add: w2_def set_status_def)
  have st: "status (dcb (drivers w2 d)) = DESCONECTADO"
    by (simp add: w2_def set_status_def)
  have hd: "interrupt_handlers (interrupt_table w2) ?name = Some (Char_on_disconnect d)"
    using Suc.prems by (simp add: w2_def set_status_def record_interrupt_handlers)
  have hist: "interrupt_history (interrupt_table w2) = interrupt_history (interrupt_table w)
       @ [\<lparr>irq_type = ?name, irq_time = now, irq_args = [], irq_kwargs = []\<rparr>]"
    by (simp add: w2_def set_status_def record_interrupt_history)
  have ih: "fst (trigger_interrupt depth env now
          (interrupt_name (device_name (dcb (drivers w2 d))) ''DISCONNECT'') [] [] w2) = None
      \<and> interrupt_history (interrupt_table (snd (trigger_interrupt depth env now
          (interrupt_name (device_name (dcb (drivers w2 d))) ''DISCONNECT'') [] [] w2)))
        = interrupt_history (interrupt_table w2) @ replicate (Suc depth)
            \<lparr>irq_type = interrupt_name (device_name (dcb (drivers w2 d))) ''DISCONNECT'',
             irq_time = now, irq_args = [], irq_kwargs = []\<rparr>
      \<and> status (dcb (drivers (snd (trigger_interrupt depth env now
          (interrupt_name (device_name (dcb (drivers w2 d))) ''DISCONNECT'') [] [] w2)) d))
        = (if depth = 0 then status (dcb (drivers w2 d)) else DESCONECTADO)"
    using hd by (intro Suc.IH) (simp add: nm)
  then have quiet: "fst (trigger_interrupt depth env now ?name [] [] w2) = None"
    by (simp add: nm)
  have call: "call_handler (trigger_interrupt depth env now) env (Char_on_disconnect d) [] []
        (w\<lparr>interrupt_table := record_interrupt now ?name [] [] (interrupt_table w)\<rparr>)
      = trigger_interrupt depth env now ?name [] [] w2"
    by (simp add: call_handler_def binds_nothing Let_def w2_def set_status_def)
  have "trigger_interrupt (Suc depth) env now ?name [] [] w
      = except_Exception (trigger_interrupt depth env now ?name [] [] w2)"
    using Suc.prems by (simp add: Let_def record_interrupt_handlers call)
  then have step: "trigger_interrupt (Suc depth) env now ?name [] [] w
      = trigger_interrupt depth env now ?name [] [] w2"
    using quiet by (simp add: except_Exception_id)
  from ih show ?case
    unfolding step by (simp add: nm st hist replicate_append_same)
qed

theorem char_disconnect_recursion_witness:
  "interrupt_handlers (interrupt_table teclado_world)
      (interrupt_name (device_name (dcb (drivers teclado_world 0))) ''DISCONNECT'')
     = Some (Char_on_disconnect 0)
   \<and> length (interrupt_history (interrupt_table
        (snd (trigger_interrupt 3 no_foreign 1
           (interrupt_name (device_name (dcb (drivers teclado_world 0))) ''DISCONNECT'') [] []
           teclado_world))))
     = length (interrupt_history (interrupt_table teclado_world)) + 4
   \<and> map irq_type (interrupt_history (interrupt_table
        (snd (trigger_interrupt 3 no_foreign 1 ''TECLADO_DISCONNECT'' [] [] teclado_world))))
     = [''TECLADO_CONNECT'', ''TECLADO_DISCONNECT'', ''TECLADO_DISCONNECT'',
        ''TECLADO_DISCONNECT'', ''TECLADO_DISCONNECT'']
   \<and> interrupt_stats (interrupt_table
        (snd (trigger_interrupt 3 no_foreign 1 ''TECLADO_DISCONNECT'' [] [] teclado_world)))
        ''TECLADO_DISCONNECT''
     = Some \<lparr>stat_count = 4, last_triggered = Some 1\<rparr>"
proof -
  have h: "interrupt_handlers (interrupt_table teclado_world)
      (interrupt_name (device_name (dcb (drivers teclado_world 0))) ''DISCONNECT'')
     = Some (Char_on_disconnect 0)"
    by code_simp
  have e: "map irq_type (interrupt_history (interrupt_table
        (snd (trigger_interrupt 3 no_foreign 1 ''TECLADO_DISCONNECT'' [] [] teclado_world))))
     = [''TECLADO_CONNECT'', ''TECLADO_DISCONNECT'', ''TECLADO_DISCONNECT'',
        ''TECLADO_DISCONNECT'', ''TECLADO_DISCONNECT'']"
    by code_simp
  have c: "interrupt_stats (interrupt_table
        (snd (trigger_interrupt 3 no_foreign 1 ''TECLADO_DISCONNECT'' [] [] teclado_world)))
        ''TECLADO_DISCONNECT''
     = Some \<lparr>stat_count = 4, last_triggered = Some 1\<rparr>"
    by code_simp
  from char_disconnect_recursion [OF h, of 3 no_foreign 1] h e c show ?thesis
    by simp
qed

section \<open>The drivers\<close>

lemma perform_not_connected:
  assumes "status (dcb (drivers w d)) \<noteq> CONECTADO"
  shows "perform_operation depth env now fault code d r w = (Inr False, w)"
  using assms
  by (simp add: perform_operation_def block_perform_operation_def char_perform_operation_def
      base_perform_operation_def split: driver_class.splits)

text \<open>
  Claim C8: for a driver of either class and every request, when the device status is not
  connected the call returns false, raising nothing, and the whole world is as before:
  the device record with its status and counters, the driver's history, the buffer
  manager, the interrupt table and the request, which is not stamped as in progress.
\<close>

theorem perform_rejected_when_not_connected:
  assumes "status (dcb (drivers w d)) \<noteq> CONECTADO"
  shows "perform_operation depth env now fault code d r w = (Inr False, w)"
  using assms by (rule perform_not_connected)

theorem perform_rejected_witness:
  "status (dcb (drivers teclado_unplugged 0)) \<noteq> CONECTADO
   \<and> perform_operation 10 no_foreign 1 False 7 0 0 teclado_unplugged
       = (Inr False, teclado_unplugged)"
proof -
  have h: "status (dcb (drivers teclado_unplugged 0)) \<noteq> CONECTADO"
    by (simp add: teclado_unplugged_def CharacterDeviceDriver_init_def
        DeviceControlBlock_init_def Let_def)
  from perform_rejected_when_not_connected [OF h, of 10 no_foreign 1 False 7 0] h
  show ?thesis
    by simp
qed

lemma complete_operation_failure:
  assumes "interrupt_handlers (interrupt_table w)
             (interrupt_name (device_name (dcb (drivers w d))) ''OPERATION_COMPLETED'') = None"
  shows "complete_operation depth env now d r False w =
     (None,
      w\<lparr>ops := (ops w)(r := (ops w r)\<lparr>completion_time := Some now, op_status := ''FALLIDA''\<rparr>),
        drivers := (drivers w)(d := (drivers w d)\<lparr>dcb := (dcb (drivers w d))
           \<lparr>error_count := error_count (dcb (drivers w d)) + 1\<rparr>\<rparr>),
        buffer_manager := snd (release_buffer (operation_id (ops w r)) (buffer_manager w)),
        interrupt_table := record_interrupt now
           (interrupt_name (device_name (dcb (drivers w d))) ''OPERATION_COMPLETED'')
           [ArgOp r, ArgBool False] [] (interrupt_table w)\<rparr>)"
  using assms
  by (simp add: complete_operation_def Let_def add_error_def trigger_no_handler)

lemma complete_operation_no_raise:
  assumes "interrupt_handlers (interrupt_table w)
             (interrupt_name (device_name (dcb (drivers w d))) ''OPERATION_COMPLETED'') = None"
  shows "complete_operation depth env now d r success w \<noteq> (Some e, w')"
  using assms
  by (simp add: complete_operation_def Let_def add_error_def trigger_no_handler)

lemma release_buffer_absent:
  "map_of (buffers (snd (release_buffer k bm))) k = None"
  by (simp add: release_buffer_def delete_conv' split: option.splits)

text \<open>
  What a failed call leaves behind, for a connected device whose completion interrupt has
  no handler. Block driver: the request is failed and stamped, its buffer entry is gone,
  the error count is one higher, the request is once in the driver's history, exactly one
  completion interrupt is recorded; the device status is error when the failure came from
  the transfer, and still busy when the buffer manager refused the allocation.
\<close>

lemma block_perform_failure_effects:
  assumes "status (dcb (drivers w d)) = CONECTADO"
    and "interrupt_handlers (interrupt_table w)
           (interrupt_name (device_name (dcb (drivers w d))) ''OPERATION_COMPLETED'') = None"
    and "block_perform_operation depth env now fault d r w = (Inr False, w')"
  shows "op_status (ops w' r) = ''FALLIDA'' \<and> completion_time (ops w' r) = Some now
       \<and> map_of (buffers (buffer_manager w')) (operation_id (ops w r)) = None
       \<and> error_count (dcb (drivers w' d)) = error_count (dcb (drivers w d)) + 1
       \<and> operation_history (drivers w' d) = operation_history (drivers w d) @ [r]
       \<and> interrupt_history (interrupt_table w') = interrupt_history (interrupt_table w)
            @ [\<lparr>irq_type = interrupt_name (device_name (dcb (drivers w d))) ''OPERATION_COMPLETED'',
                irq_time = now, irq_args = [ArgOp r, ArgBool False], irq_kwargs = []\<rparr>]
       \<and> status (dcb (drivers w' d))
           = (if fst (allocate_buffer (data_size_mb (ops w r)) (operation_id (ops w r))
                        (buffer_manager w))
              then ERROR else OCUPADO)"
  using assms
  by (auto simp add: block_perform_operation_def base_perform_operation_def block_try_def Let_def
      set_status_def complete_operation_failure complete_operation_no_raise
      release_buffer_absent record_interrupt_history is_Exception_simps
      split: prod.splits if_splits sum.splits option.splits)

text \<open>
  Character driver, when the error interrupt has no handler either: as above, the device
  status is error, and the error interrupt is recorded after the completion interrupt.
\<close>

lemma char_perform_failure_effects:
  assumes "status (dcb (drivers w d)) = CONECTADO"
    and "interrupt_handlers (interrupt_table w)
           (interrupt_name (device_name (dcb (drivers w d))) ''OPERATION_COMPLETED'') = None"
    and "interrupt_handlers (interrupt_table w)
           (interrupt_name (device_name (dcb (drivers w d))) ''ERROR'') = None"
    and "char_perform_operation depth env now fault code d r w = (Inr False, w')"
  shows "op_status (ops w' r) = ''FALLIDA'' \<and> completion_time (ops w' r) = Some now
       \<and> map_of (buffers (buffer_manager w')) (operation_id (ops w r)) = None
       \<and> error_count (dcb (drivers w' d)) = error_count (dcb (drivers w d)) + 1
       \<and> operation_history (drivers w' d) = operation_history (drivers w d) @ [r]
       \<and> interrupt_history (interrupt_table w') = interrupt_history (interrupt_table w)
            @ [\<lparr>irq_type = interrupt_name (device_name (dcb (drivers w d))) ''OPERATION_COMPLETED'',
                irq_time = now, irq_args = [ArgOp r, ArgBool False], irq_kwargs = []\<rparr>,
               \<lparr>irq_type = interrupt_name (device_name (dcb (drivers w d))) ''ERROR'',
                irq_time = now, irq_args = [],
                irq_kwargs = [(''error_code'', ArgInt code),
                              (''error_message'', ArgStr ''Error simulado'')]\<rparr>]
       \<and> status (dcb (drivers w' d)) = ERROR"
  using assms
  by (auto simp add: char_perform_operation_def base_perform_operation_def char_try_def Let_def
      set_status_def complete_operation_failure complete_operation_no_raise
      release_buffer_absent record_interrupt_history
      record_interrupt_handlers trigger_no_handler is_Exception_simps
      split: prod.splits if_splits sum.splits option.splits)

text \<open>
  Claim C1, on the code: in the scenario of \<^verbatim>\<open>test_core_functionality\<close> the block device is
  connected and the request of 10 MB does not fit the pool of 2048 KB. The call returns
  false with the request failed and the error count incremented, but the device status is
  busy, not error: the return after the refused allocation leaves the status that the
  start of the call had set.
\<close>

theorem block_buffer_refusal_leaves_device_busy:
  "status (dcb (drivers usb_world 0)) = CONECTADO
   \<and> fst (perform_operation 10 no_foreign 1 False 7 0 0 usb_world) = Inr False
   \<and> status (dcb (drivers (snd (perform_operation 10 no_foreign 1 False 7 0 0 usb_world)) 0))
       = OCUPADO
   \<and> op_status (ops (snd (perform_operation 10 no_foreign 1 False 7 0 0 usb_world)) 0)
       = ''FALLIDA''
   \<and> error_count (dcb (drivers (snd (perform_operation 10 no_foreign 1 False 7 0 0 usb_world)) 0))
       = 1"
  by code_simp

section \<open>The dispatch loop\<close>

lemma entries_put_all_clear: "entries (put_all rs (clear q)) = rs"
  by (cases q) (simp_all add: put_all_Queue put_all_PriorityQueue)

lemma get_next_operation_consumes:
  assumes "get_next_operation store dev s = (Some r, s')"
    and "map_of (operation_queues s) dev = Some q" and "distinct (entries q)"
  shows "\<exists>q'. map_of (operation_queues s') dev = Some q' \<and> r \<notin> set (entries q')"
proof (cases "algorithm s = TRABAJO_MAS_CORTO_PRIMERO")
  case True
  with assms show ?thesis
    by (auto simp: get_next_operation_def Let_def update_conv' entries_put_all_clear
        split: if_splits list.splits)
next
  case False
  with assms have g: "queue_get store dev q s = (Some r, s')" and ne: "\<not> empty_queue q"
    by (auto simp: get_next_operation_def split: if_splits)
  show ?thesis
  proof (cases q)
    case (Queue xs)
    with g assms(3) show ?thesis
      by (cases xs) (auto simp: queue_get_def update_conv')
  next
    case (PriorityQueue xs)
    with g assms(3) show ?thesis
      by (cases xs) (auto simp: queue_get_def update_conv' Let_def)
  qed
qed

text \<open>
  Claim C10: when the loop reaches a registered device whose status is neither connected
  nor busy and the scheduler hands out a pending request for it, the request leaves the
  queue (where the queue held each request once, it is not in the queue afterwards), the
  processed and failed counters grow by one, a history record with success false is
  appended, every listener is called with success false, and the world of the drivers is
  untouched: the request is still pending with no completion time, and no interrupt has
  been recorded.
\<close>

theorem dispatch_drops_request_of_unavailable_device:
  assumes "map_of (driver_table sys) dev = Some d"
    and "status (dcb (drivers (core sys) d)) \<noteq> CONECTADO"
    and "status (dcb (drivers (core sys) d)) \<noteq> OCUPADO"
    and "get_next_operation (ops (core sys)) dev (io_scheduler sys) = (Some r, sch)"
    and "op_status (ops (core sys) r) = ''PENDIENTE''"
    and "completion_time (ops (core sys) r) = None"
  shows "fst (dispatch_device depth env now fault code dev sys) = None
       \<and> core (snd (dispatch_device depth env now fault code dev sys)) = core sys
       \<and> io_scheduler (snd (dispatch_device depth env now fault code dev sys)) = sch
       \<and> (\<forall>q. map_of (operation_queues (io_scheduler sys)) dev = Some q \<and> distinct (entries q)
              \<longrightarrow> (\<exists>q'. map_of (operation_queues sch) dev = Some q' \<and> r \<notin> set (entries q')))
       \<and> operations_processed (stats (snd (dispatch_device depth env now fault code dev sys)))
           = operations_processed (stats sys) + 1
       \<and> operations_failed (stats (snd (dispatch_device depth env now fault code dev sys)))
           = operations_failed (stats sys) + 1
       \<and> operations_succeeded (stats (snd (dispatch_device depth env now fault code dev sys)))
           = operations_succeeded (stats sys)
       \<and> (\<exists>entry. manager_history (snd (dispatch_device depth env now fault code dev sys))
                     = manager_history sys @ [entry]
              \<and> rec_operation_id entry = operation_id (ops (core sys) r)
              \<and> \<not> rec_success entry \<and> rec_status entry = ''PENDIENTE''
              \<and> rec_start_time entry = start_time (ops (core sys) r)
              \<and> rec_completion_time entry = None)
       \<and> notifications (snd (dispatch_device depth env now fault code dev sys))
           = notifications sys @ map (\<lambda>listener. (listener, dev, r, False)) (status_listeners sys)
       \<and> op_status (ops (core (snd (dispatch_device depth env now fault code dev sys))) r)
           = ''PENDIENTE''
       \<and> completion_time (ops (core (snd (dispatch_device depth env now fault code dev sys))) r)
           = None
       \<and> interrupt_history (interrupt_table
             (core (snd (dispatch_device depth env now fault code dev sys))))
           = interrupt_history (interrupt_table (core sys))"
proof -
  have p: "perform_operation depth env now fault code d r (core sys) = (Inr False, core sys)"
    using assms(2) by (rule perform_not_connected)
  have c: "\<forall>q. map_of (operation_queues (io_scheduler sys)) dev = Some q \<and> distinct (entries q)
              \<longrightarrow> (\<exists>q'. map_of (operation_queues sch) dev = Some q' \<and> r \<notin> set (entries q'))"
    using assms(4) by (blast dest: get_next_operation_consumes)
  show ?thesis
    using assms p c by (simp add: dispatch_device_def Let_def)
qed

theorem dispatch_drops_request_witness:
  "map_of (driver_table unplugged_system) 1 = Some 0
   \<and> status (dcb (drivers (core unplugged_system) 0)) \<noteq> CONECTADO
   \<and> status (dcb (drivers (core unplugged_system) 0)) \<noteq> OCUPADO
   \<and> get_next_operation (ops (core unplugged_system)) 1 (io_scheduler unplugged_system)
       = (Some 0, \<lparr>algorithm = FIFO, operation_queues = [(1, Queue [])]\<rparr>)
   \<and> op_status (ops (core unplugged_system) 0) = ''PENDIENTE''
   \<and> completion_time (ops (core unplugged_system) 0) = None
   \<and> fst (dispatch_device 10 no_foreign 1 False 7 1 unplugged_system) = None
   \<and> core (snd (dispatch_device 10 no_foreign 1 False 7 1 unplugged_system))
       = core unplugged_system
   \<and> io_scheduler (snd (dispatch_device 10 no_foreign 1 False 7 1 unplugged_system))
       = \<lparr>algorithm = FIFO, operation_queues = [(1, Queue [])]\<rparr>
   \<and> operations_failed (stats (snd (dispatch_device 10 no_foreign 1 False 7 1 unplugged_system)))
       = operations_failed (stats unplugged_system) + 1
   \<and> notifications (snd (dispatch_device 10 no_foreign 1 False 7 1 unplugged_system))
       = notifications unplugged_system
         @ map (\<lambda>listener. (listener, 1, 0, False)) (status_listeners unplugged_system)
   \<and> op_status (ops (core (snd (dispatch_device 10 no_foreign 1 False 7 1 unplugged_system))) 0)
       = ''PENDIENTE''"
proof -
  have h1: "map_of (driver_table unplugged_system) 1 = Some 0"
    by (simp add: unplugged_system_def)
  have h2: "status (dcb (drivers (core unplugged_system) 0)) = DESCONECTADO"
    by (simp add: unplugged_system_def usb_unplugged_def BlockDeviceDriver_init_def
        DeviceControlBlock_init_def Let_def)
  have h4: "get_next_operation (ops (core unplugged_system)) 1 (io_scheduler unplugged_system)
       = (Some 0, \<lparr>algorithm = FIFO, operation_queues = [(1, Queue [])]\<rparr>)"
    by (simp add: unplugged_system_def get_next_operation_def add_operation_def
        IOScheduler_init_def new_queue_def empty_queue_def queue_get_def)
  have h7: "op_status (ops (core unplugged_system) 0) = ''PENDIENTE''"
    and h8: "completion_time (ops (core unplugged_system) 0) = None"
    by (simp_all add: unplugged_system_def usb_unplugged_def BlockDeviceDriver_init_def
        blank_world_def IOOperation_init_def Let_def)
  from dispatch_drops_request_of_unavailable_device
         [OF h1 _ _ h4 h7 h8, where depth = 10 and env = no_foreign and now = 1
            and fault = False and code = 7] h1 h2 h4 h7 h8
  show ?thesis
    by simp
qed

end
